theory Spec2Isabelle
  imports Main "HOL-Library.Sublist"
begin

section \<open>JavaScript values used by the client\<close>

text \<open>
  The client (\<^verbatim>\<open>src/api/client.ts\<close>) works on JavaScript numbers and strings. The only
  numbers it computes with are results of \<^verbatim>\<open>parseInt\<close>, \<^verbatim>\<open>Date.now()\<close>, array lengths
  and integer literals, so a number is modelled as a mathematical integer or \<^verbatim>\<open>NaN\<close>.
  (The model is exact while the integers stay below \<open>2^53\<close>, where a double holds them
  exactly.) Header values and paths are byte strings, one \<^typ>\<open>char\<close> per code unit.
\<close>

datatype jsnum = Num int | NaN

text \<open>\<^verbatim>\<open>a <= b\<close>, \<^verbatim>\<open>a < b\<close>, \<^verbatim>\<open>a - b\<close>, \<^verbatim>\<open>a * b\<close>: a comparison with \<^verbatim>\<open>NaN\<close> is false,
  arithmetic with \<^verbatim>\<open>NaN\<close> is \<^verbatim>\<open>NaN\<close>.\<close>

fun js_le :: "jsnum \<Rightarrow> jsnum \<Rightarrow> bool" where
  "js_le (Num a) (Num b) = (a \<le> b)"
| "js_le _ _ = False"

fun js_lt :: "jsnum \<Rightarrow> jsnum \<Rightarrow> bool" where
  "js_lt (Num a) (Num b) = (a < b)"
| "js_lt _ _ = False"

fun js_sub :: "jsnum \<Rightarrow> jsnum \<Rightarrow> jsnum" where
  "js_sub (Num a) (Num b) = Num (a - b)"
| "js_sub _ _ = NaN"

fun js_mul :: "jsnum \<Rightarrow> jsnum \<Rightarrow> jsnum" where
  "js_mul (Num a) (Num b) = Num (a * b)"
| "js_mul _ _ = NaN"

text \<open>White space as \<^verbatim>\<open>parseInt\<close> strips it and as the regular-expression class
  \<^verbatim>\<open>\s\<close> matches it, restricted to byte strings: TAB, LF, VT, FF, CR, space, NBSP.\<close>

definition is_space :: "char \<Rightarrow> bool" where
  "is_space c = (c \<in> set [CHR 0x09, CHR 0x0A, CHR 0x0B, CHR 0x0C, CHR 0x0D, CHR '' '', CHR 0xA0])"

definition is_digit :: "char \<Rightarrow> bool" where
  "is_digit c = (c \<in> set ''0123456789'')"

text \<open>The class \<^verbatim>\<open>\w\<close>: ASCII letters, digits and the underscore.\<close>

definition is_word :: "char \<Rightarrow> bool" where
  "is_word c = (c \<in> set ''abcdefghijklmnopqrstuvwxyzABCDEFGHIJKLMNOPQRSTUVWXYZ0123456789_'')"

definition digit_val :: "char \<Rightarrow> int" where
  "digit_val c = int (of_char c) - 48"

text \<open>The value of a run of decimal digits, most significant first.\<close>

definition digits_val :: "string \<Rightarrow> int" where
  "digits_val ds = foldl (\<lambda>acc d. acc * 10 + digit_val d) 0 ds"

text \<open>
  \<^verbatim>\<open>parseInt(s, 10)\<close>: strip leading white space, read an optional sign, then the longest
  run of decimal digits; \<^verbatim>\<open>NaN\<close> when that run is empty. Whatever follows the digits is
  ignored. With radix 10 given, no \<^verbatim>\<open>0x\<close> prefix is recognised.
\<close>

definition parseInt_unsigned :: "string \<Rightarrow> jsnum" where
  "parseInt_unsigned s =
     (let ds = takeWhile is_digit s in if ds = [] then NaN else Num (digits_val ds))"

definition parseInt :: "string \<Rightarrow> jsnum" where
  "parseInt s =
     (case dropWhile is_space s of
        [] \<Rightarrow> NaN
      | c # r \<Rightarrow>
          if c = CHR ''-'' then js_mul (Num (- 1)) (parseInt_unsigned r)
          else if c = CHR ''+'' then parseInt_unsigned r
          else parseInt_unsigned (c # r))"

text \<open>Truthiness of an optional string (\<^verbatim>\<open>string | null | undefined\<close>): \<^verbatim>\<open>null\<close>,
  \<^verbatim>\<open>undefined\<close> and the empty string are falsy.\<close>

fun truthy :: "string option \<Rightarrow> bool" where
  "truthy None = False"
| "truthy (Some s) = (s \<noteq> [])"

text \<open>Number to string (\<^verbatim>\<open>toString\<close>, template literals) for integers.\<close>

function decimal :: "nat \<Rightarrow> string" where
  "decimal n =
     (if n < 10 then [char_of (48 + n)]
      else decimal (n div 10) @ [char_of (48 + n mod 10)])"
  by pat_completeness auto
termination
  by (relation "measure (\<lambda>n. n)") auto

declare decimal.simps [simp del]

fun toString :: "jsnum \<Rightarrow> string" where
  "toString NaN = ''NaN''"
| "toString (Num i) = (if i < 0 then CHR ''-'' # decimal (nat (- i)) else decimal (nat i))"

section \<open>Regular expressions as \<^verbatim>\<open>String.prototype.match\<close> runs them\<close>

text \<open>
  The link header is decoded with one regular expression, a sequence of literal characters,
  character classes under \<^verbatim>\<open>*\<close> or \<^verbatim>\<open>+\<close>, and capture groups around a class under \<^verbatim>\<open>+\<close>.
  The matcher is the backtracking one of the language: quantifiers are greedy, a
  shorter repetition is tried when the rest fails, and the search takes the leftmost
  start position that matches.
\<close>

datatype cls = Space | Word | Not char

fun in_cls :: "cls \<Rightarrow> char \<Rightarrow> bool" where
  "in_cls Space c = is_space c"
| "in_cls Word c = is_word c"
| "in_cls (Not x) c = (c \<noteq> x)"

datatype rx_item = Lit char | Star cls | Plus cls | CapPlus cls

text \<open>All ways to split a string into a prefix of class characters and the rest,
  the longest prefix first.\<close>

fun star_splits :: "cls \<Rightarrow> string \<Rightarrow> (string \<times> string) list" where
  "star_splits c [] = [([], [])]"
| "star_splits c (x # xs) =
     (if in_cls c x
      then map (\<lambda>(p, r). (x # p, r)) (star_splits c xs) @ [([], x # xs)]
      else [([], x # xs)])"

text \<open>All matches of the item sequence at the start of the string, as their lists of
  captured groups, in the order in which backtracking finds them.\<close>

fun rx_seq :: "rx_item list \<Rightarrow> string \<Rightarrow> string list list" where
  "rx_seq [] s = [[]]"
| "rx_seq (Lit c # items) s =
     (case s of [] \<Rightarrow> [] | x # xs \<Rightarrow> if x = c then rx_seq items xs else [])"
| "rx_seq (Star c # items) s =
     concat (map (\<lambda>(p, r). rx_seq items r) (star_splits c s))"
| "rx_seq (Plus c # items) s =
     concat (map (\<lambda>(p, r). if p = [] then [] else rx_seq items r) (star_splits c s))"
| "rx_seq (CapPlus c # items) s =
     concat (map (\<lambda>(p, r). if p = [] then [] else map ((#) p) (rx_seq items r))
                 (star_splits c s))"

text \<open>\<^verbatim>\<open>s.match(re)\<close> without the global flag: the first match at the leftmost start.\<close>

fun rx_search :: "rx_item list \<Rightarrow> string \<Rightarrow> string list option" where
  "rx_search items s =
     (case rx_seq items s of
        m # _ \<Rightarrow> Some m
      | [] \<Rightarrow> (case s of [] \<Rightarrow> None | _ # xs \<Rightarrow> rx_search items xs))"

declare rx_search.simps [simp del]

text \<open>\<^verbatim>\<open>/<[^>]+>\s*;\s*rel="(\w+)";\s*results="(\w+)";\s*cursor="([^"]+)"/\<close>\<close>

definition linkRegex :: "rx_item list" where
  "linkRegex =
     [Lit CHR ''<'', Plus (Not CHR ''>''), Lit CHR ''>'', Star Space, Lit CHR '';'', Star Space]
     @ map Lit ''rel=\"'' @ [CapPlus Word] @ map Lit ''\";'' @ [Star Space]
     @ map Lit ''results=\"'' @ [CapPlus Word] @ map Lit ''\";'' @ [Star Space]
     @ map Lit ''cursor=\"'' @ [CapPlus (Not CHR 0x22), Lit CHR 0x22]"

text \<open>\<^verbatim>\<open>header.split(',')\<close>\<close>

fun split_on :: "char \<Rightarrow> string \<Rightarrow> string list" where
  "split_on c [] = [[]]"
| "split_on c (x # xs) =
     (if x = c then [] # split_on c xs
      else (case split_on c xs of [] \<Rightarrow> [[x]] | p # ps \<Rightarrow> (x # p) # ps))"

section \<open>The data model (\<^verbatim>\<open>src/types.ts\<close>, \<^verbatim>\<open>src/api/client.ts\<close>)\<close>

record SentryConfig =
  authToken :: string
  org :: string
  baseUrl :: string

record CursorLink =
  cursor :: string
  results :: bool

text \<open>\<^verbatim>\<open>PaginationLinks\<close>: the optional fields \<^verbatim>\<open>next\<close> and \<^verbatim>\<open>previous\<close>.\<close>

record PaginationLinks =
  next_link :: "CursorLink option"
  previous_link :: "CursorLink option"

record 'a ApiResponse =
  data :: 'a
  pagination :: PaginationLinks

record RateLimitState =
  remaining :: jsnum
  limit :: jsnum
  reset :: jsnum

text \<open>The field initialiser of \<^verbatim>\<open>SentryClient.rateLimit\<close>.\<close>

definition initialRateLimit :: RateLimitState where
  "initialRateLimit = \<lparr>remaining = Num 100, limit = Num 100, reset = Num 0\<rparr>"

section \<open>\<^verbatim>\<open>parseLinkHeader\<close>\<close>

definition noLinks :: PaginationLinks where
  "noLinks = \<lparr>next_link = None, previous_link = None\<rparr>"

text \<open>The body of the \<^verbatim>\<open>for\<close> loop, for one part of the header.\<close>

definition linkStep :: "PaginationLinks \<Rightarrow> string \<Rightarrow> PaginationLinks" where
  "linkStep links part =
     (case rx_search linkRegex part of
        Some [rel, res, cur] \<Rightarrow>
          if rel = ''next''
          then links\<lparr>next_link := Some \<lparr>cursor = cur, results = (res = ''true'')\<rparr>\<rparr>
          else if rel = ''previous''
          then links\<lparr>previous_link := Some \<lparr>cursor = cur, results = (res = ''true'')\<rparr>\<rparr>
          else links
      | _ \<Rightarrow> links)"

definition parseLinkHeader :: "string option \<Rightarrow> PaginationLinks" where
  "parseLinkHeader header =
     (case header of
        None \<Rightarrow> noLinks
      | Some h \<Rightarrow> if h = [] then noLinks else foldl linkStep noLinks (split_on CHR '','' h))"

section \<open>The transport, the clock and the client state\<close>

text \<open>\<^verbatim>\<open>RequestInit\<close>, as far as the client reads or forwards it. The default argument
  \<^verbatim>\<open>options = {}\<close> is \<open>noInit\<close>.\<close>

record RequestInit =
  init_method :: "string option"
  init_headers :: "(string \<times> string) list option"
  init_body :: "string option"

definition noInit :: RequestInit where
  "noInit = \<lparr>init_method = None, init_headers = None, init_body = None\<rparr>"

text \<open>
  A \<^verbatim>\<open>Response\<close>: the status, the headers (names in lower case, as \<^verbatim>\<open>Headers.get\<close> looks
  them up), the body as \<^verbatim>\<open>response.text()\<close> gives it, and the body as \<^verbatim>\<open>response.json()\<close>
  gives it, cast to the caller's type; \<open>None\<close> when \<^verbatim>\<open>response.json()\<close> rejects.
\<close>

record 'a Response =
  status :: nat
  statusText :: string
  resp_headers :: "(string \<times> string) list"
  body_text :: string
  body_json :: "'a option"

text \<open>\<^verbatim>\<open>fetch\<close> resolves with a response or rejects (a transport failure).\<close>

datatype 'a outcome = Resolved "'a Response" | Rejected string

text \<open>What an \<^verbatim>\<open>await\<close> of the client can throw: the client's own \<^verbatim>\<open>SentryApiError\<close>
  (message, statusCode, body), the rejection of \<^verbatim>\<open>fetch\<close>, the rejection of
  \<^verbatim>\<open>response.json()\<close>.\<close>

datatype error = SentryApiError string nat string | FetchRejected string | JsonRejected

text \<open>The observable actions of the client, in the order they happen.\<close>

datatype event = Fetch string RequestInit | Delay jsnum | DateNow int

fun is_Fetch :: "event \<Rightarrow> bool" where
  "is_Fetch (Fetch _ _) = True"
| "is_Fetch _ = False"

fun is_DateNow :: "event \<Rightarrow> bool" where
  "is_DateNow (DateNow _) = True"
| "is_DateNow _ = False"

text \<open>
  The world outside the client: what the \<open>k\<close>-th call of \<^verbatim>\<open>fetch\<close> answers to the
  request it is given, what the \<open>k\<close>-th call of \<^verbatim>\<open>Date.now()\<close> reads, and how
  \<^verbatim>\<open>URLSearchParams\<close> serialises a parameter list.
\<close>

record 'a env =
  respond :: "nat \<Rightarrow> string \<Rightarrow> RequestInit \<Rightarrow> 'a outcome"
  clock :: "nat \<Rightarrow> int"
  serialize :: "(string \<times> string) list \<Rightarrow> string"

text \<open>The mutable state of a \<^verbatim>\<open>SentryClient\<close>, and the actions performed so far.\<close>

record client =
  rateLimit :: RateLimitState
  trace :: "event list"

definition newClient :: client where
  "newClient = \<lparr>rateLimit = initialRateLimit, trace = []\<rparr>"

definition dateNow :: "'a env \<Rightarrow> client \<Rightarrow> int \<times> client" where
  "dateNow e st =
     (let t = clock e (length (filter is_DateNow (trace st)))
      in (t, st\<lparr>trace := trace st @ [DateNow t]\<rparr>))"

text \<open>\<^verbatim>\<open>delay(ms)\<close>: the suspension, recorded with its argument.\<close>

definition delay :: "jsnum \<Rightarrow> client \<Rightarrow> client" where
  "delay ms st = st\<lparr>trace := trace st @ [Delay ms]\<rparr>"

definition fetch :: "'a env \<Rightarrow> string \<Rightarrow> RequestInit \<Rightarrow> client \<Rightarrow> 'a outcome \<times> client" where
  "fetch e url init st =
     (respond e (length (filter is_Fetch (trace st))) url init,
      st\<lparr>trace := trace st @ [Fetch url init]\<rparr>)"

text \<open>\<^verbatim>\<open>response.headers.get(name)\<close>\<close>

definition header_get :: "'a Response \<Rightarrow> string \<Rightarrow> string option" where
  "header_get response name = map_of (resp_headers response) name"

text \<open>\<^verbatim>\<open>response.ok\<close>\<close>

definition ok :: "'a Response \<Rightarrow> bool" where
  "ok response = (200 \<le> status response \<and> status response \<le> 299)"

text \<open>Assigning a property of a headers object, and the spread
  \<^verbatim>\<open>{ ...base, ...extra }\<close>.\<close>

fun assign :: "string \<Rightarrow> string \<Rightarrow> (string \<times> string) list \<Rightarrow> (string \<times> string) list" where
  "assign k v [] = [(k, v)]"
| "assign k v ((k', v') # ps) = (if k' = k then (k, v) # ps else (k', v') # assign k v ps)"

definition spread :: "(string \<times> string) list \<Rightarrow> (string \<times> string) list \<Rightarrow> (string \<times> string) list" where
  "spread base extra = foldl (\<lambda>acc (k, v). assign k v acc) base extra"

section \<open>\<^verbatim>\<open>SentryClient.request\<close> and \<^verbatim>\<open>updateRateLimitState\<close>\<close>

definition updateRateLimitState :: "'a Response \<Rightarrow> RateLimitState \<Rightarrow> RateLimitState" where
  "updateRateLimitState response rl =
     (let remaining_h = header_get response ''x-sentry-rate-limit-remaining'';
          limit_h = header_get response ''x-sentry-rate-limit-limit'';
          reset_h = header_get response ''x-sentry-rate-limit-reset'';
          rl1 = (if truthy remaining_h then rl\<lparr>remaining := parseInt (the remaining_h)\<rparr> else rl);
          rl2 = (if truthy limit_h then rl1\<lparr>limit := parseInt (the limit_h)\<rparr> else rl1)
      in if truthy reset_h then rl2\<lparr>reset := js_mul (parseInt (the reset_h)) (Num 1000)\<rparr> else rl2)"

text \<open>Lines 28 to 31: the wait before a request. \<^verbatim>\<open>&&\<close> reads the clock only when its left
  operand holds, and the wait time reads it again.\<close>

definition rateLimitWait :: "'a env \<Rightarrow> client \<Rightarrow> client" where
  "rateLimitWait e st =
     (if js_le (remaining (rateLimit st)) (Num 0)
      then (let (t1, s1) = dateNow e st
            in if js_lt (Num t1) (reset (rateLimit s1))
               then (let (t2, s2) = dateNow e s1;
                         waitTime = js_sub (reset (rateLimit s2)) (Num t2)
                     in delay waitTime s2)
               else s1)
      else st)"

text \<open>Line 49: \<^verbatim>\<open>parseInt(response.headers.get('retry-after') || '60', 10) * 1000\<close>\<close>

definition retryAfter :: "'a Response \<Rightarrow> jsnum" where
  "retryAfter response =
     (let h = header_get response ''retry-after''
      in js_mul (parseInt (if truthy h then the h else ''60'')) (Num 1000))"

definition requestHeaders :: "SentryConfig \<Rightarrow> RequestInit \<Rightarrow> (string \<times> string) list" where
  "requestHeaders config options =
     spread [(''Authorization'', ''Bearer '' @ authToken config),
             (''Content-Type'', ''application/json'')]
            (case init_headers options of None \<Rightarrow> [] | Some hs \<Rightarrow> hs)"

text \<open>Lines 40 to 43: the second argument of \<^verbatim>\<open>fetch\<close>, \<^verbatim>\<open>{ ...options, headers }\<close>.\<close>

definition fetchInit :: "SentryConfig \<Rightarrow> RequestInit \<Rightarrow> RequestInit" where
  "fetchInit config options = options\<lparr>init_headers := Some (requestHeaders config options)\<rparr>"

definition apiErrorOf :: "'a Response \<Rightarrow> error" where
  "apiErrorOf response =
     SentryApiError
       (''Sentry API error: '' @ decimal (status response) @ '' '' @ statusText response)
       (status response) (body_text response)"

text \<open>
  The recursion on a 429 has no bound in the source, so \<open>request\<close> is a partial function:
  \<open>None\<close> is a call that never settles, \<open>Some (Inl err, st)\<close> one that throws,
  \<open>Some (Inr r, st)\<close> one that returns.
\<close>

partial_function (option) request ::
  "'a env \<Rightarrow> SentryConfig \<Rightarrow> string \<Rightarrow> RequestInit \<Rightarrow> client
     \<Rightarrow> ((error + 'a ApiResponse) \<times> client) option"
where
  "request e config path options st =
     (let st1 = rateLimitWait e st;
          url = baseUrl config @ path;
          (res, st2) = fetch e url (fetchInit config options) st1
      in case res of
           Rejected why \<Rightarrow> Some (Inl (FetchRejected why), st2)
         | Resolved response \<Rightarrow>
             (let st3 = st2\<lparr>rateLimit := updateRateLimitState response (rateLimit st2)\<rparr>
              in if status response = 429
                 then request e config path options (delay (retryAfter response) st3)
                 else if \<not> ok response
                 then Some (Inl (apiErrorOf response), st3)
                 else (case body_json response of
                         None \<Rightarrow> Some (Inl JsonRejected, st3)
                       | Some d \<Rightarrow>
                           Some (Inr \<lparr>data = d,
                                      pagination = parseLinkHeader (header_get response ''link'')\<rparr>,
                                 st3))))"

section \<open>\<^verbatim>\<open>SentryClient.getIssues\<close> and \<^verbatim>\<open>testConnection\<close>\<close>

text \<open>The argument of \<^verbatim>\<open>getIssues\<close>. The limit is a number the caller obtained from
  \<^verbatim>\<open>parseInt\<close> or a literal, or is left out.\<close>

record IssueOptions =
  project :: "string option"
  query :: "string option"
  statsPeriod :: "string option"
  environment :: "string option"
  opt_limit :: "jsnum option"

text \<open>\<^verbatim>\<open>URLSearchParams.set\<close>\<close>

fun params_set :: "string \<Rightarrow> string \<Rightarrow> (string \<times> string) list \<Rightarrow> (string \<times> string) list" where
  "params_set k v [] = [(k, v)]"
| "params_set k v ((k', v') # ps) =
     (if k' = k then (k, v) # filter (\<lambda>p. fst p \<noteq> k) ps else (k', v') # params_set k v ps)"

text \<open>Truthiness of an optional number: \<^verbatim>\<open>undefined\<close>, \<^verbatim>\<open>0\<close> and \<^verbatim>\<open>NaN\<close> are falsy.\<close>

fun truthy_num :: "jsnum option \<Rightarrow> bool" where
  "truthy_num (Some (Num n)) = (n \<noteq> 0)"
| "truthy_num _ = False"

text \<open>Lines 109 to 114.\<close>

definition issueParams :: "IssueOptions \<Rightarrow> (string \<times> string) list" where
  "issueParams options =
     (let p0 = [];
          p1 = (if truthy (query options) then params_set ''query'' (the (query options)) p0 else p0);
          p2 = (if truthy (statsPeriod options)
                then params_set ''statsPeriod'' (the (statsPeriod options)) p1 else p1);
          p3 = (if truthy (environment options)
                then params_set ''environment'' (the (environment options)) p2 else p2)
      in if truthy_num (opt_limit options)
         then params_set ''limit'' (toString (the (opt_limit options))) p3 else p3)"

text \<open>Line 122: \<^verbatim>\<open>options.limit || 25\<close>\<close>

definition maxResultsOf :: "IssueOptions \<Rightarrow> int" where
  "maxResultsOf options =
     (case opt_limit options of Some (Num n) \<Rightarrow> if n = 0 then 25 else n | _ \<Rightarrow> 25)"

text \<open>Lines 125 to 130.\<close>

definition pagePath ::
  "'a env \<Rightarrow> SentryConfig \<Rightarrow> IssueOptions \<Rightarrow> (string \<times> string) list \<Rightarrow> string option \<Rightarrow> string"
where
  "pagePath e config options params cur =
     (let paginatedParams = (if truthy cur then params_set ''cursor'' (the cur) params else params)
      in if truthy (project options)
         then ''/projects/'' @ org config @ ''/'' @ the (project options) @ ''/issues/?''
              @ serialize e paginatedParams
         else ''/organizations/'' @ org config @ ''/issues/?'' @ serialize e paginatedParams)"

text \<open>\<^verbatim>\<open>issues.slice(0, maxResults)\<close>: a negative end counts from the end of the array.\<close>

definition slice0 :: "'r list \<Rightarrow> int \<Rightarrow> 'r list" where
  "slice0 xs m = (if m < 0 then take (nat (int (length xs) + m)) xs else take (nat m) xs)"

text \<open>Line 136: \<^verbatim>\<open>pagination.next?.results ? pagination.next.cursor : undefined\<close>\<close>

definition nextCursor :: "PaginationLinks \<Rightarrow> string option" where
  "nextCursor links =
     (case next_link links of
        None \<Rightarrow> None
      | Some l \<Rightarrow> if results l then Some (cursor l) else None)"

text \<open>The \<^verbatim>\<open>do ... while (cursor)\<close> loop, entered with the issues so far and the cursor.
  Nothing bounds the number of rounds, so the loop is a partial function too.\<close>

partial_function (option) getIssues_loop ::
  "'r list env \<Rightarrow> SentryConfig \<Rightarrow> IssueOptions \<Rightarrow> 'r list \<Rightarrow> string option \<Rightarrow> client
     \<Rightarrow> ((error + 'r list) \<times> client) option"
where
  "getIssues_loop e config options issues cur st =
     Option.bind (request e config (pagePath e config options (issueParams options) cur) noInit st)
       (\<lambda>(res, st').
          case res of
            Inl err \<Rightarrow> Some (Inl err, st')
          | Inr r \<Rightarrow>
              (let issues' = issues @ data r
               in if int (length issues') \<ge> maxResultsOf options
                  then Some (Inr (slice0 issues' (maxResultsOf options)), st')
                  else (let cur' = nextCursor (pagination r)
                        in if truthy cur'
                           then getIssues_loop e config options issues' cur' st'
                           else Some (Inr (slice0 issues' (maxResultsOf options)), st'))))"

definition getIssues ::
  "'r list env \<Rightarrow> SentryConfig \<Rightarrow> IssueOptions \<Rightarrow> client \<Rightarrow> ((error + 'r list) \<times> client) option"
where
  "getIssues e config options st = getIssues_loop e config options [] None st"

text \<open>\<^verbatim>\<open>try { await this.request(path); return true } catch { return false }\<close>\<close>

definition testConnection ::
  "'a env \<Rightarrow> SentryConfig \<Rightarrow> client \<Rightarrow> ((error + bool) \<times> client) option"
where
  "testConnection e config st =
     Option.bind (request e config (''/organizations/'' @ org config @ ''/'') noInit st)
       (\<lambda>(res, st'). case res of Inl err \<Rightarrow> Some (Inr False, st') | Inr r \<Rightarrow> Some (Inr True, st'))"

section \<open>Reading a trace, and scripted environments\<close>

text \<open>The arguments of the \<^verbatim>\<open>delay\<close> calls of a trace, in order.\<close>

fun delays :: "event list \<Rightarrow> jsnum list" where
  "delays [] = []"
| "delays (Delay ms # tr) = ms # delays tr"
| "delays (_ # tr) = delays tr"

text \<open>A serialisation of parameters that is enough for values without reserved
  characters: \<^verbatim>\<open>k=v\<close> pairs joined by \<^verbatim>\<open>&\<close>.\<close>

fun plainSerialize :: "(string \<times> string) list \<Rightarrow> string" where
  "plainSerialize [] = []"
| "plainSerialize [(k, v)] = k @ ''='' @ v"
| "plainSerialize ((k, v) # ps) = k @ ''='' @ v @ ''&'' @ plainSerialize ps"

text \<open>An environment that answers the \<open>k\<close>-th \<^verbatim>\<open>fetch\<close> with the \<open>k\<close>-th entry of a
  script, whatever the request, and whose clock stands still at \<open>t\<close>.\<close>

definition scripted :: "'a outcome list \<Rightarrow> int \<Rightarrow> 'a env" where
  "scripted script t =
     \<lparr>respond = (\<lambda>k url init. if k < length script then script ! k else Rejected ''script exhausted''),
      clock = (\<lambda>k. t),
      serialize = plainSerialize\<rparr>"

definition demoConfig :: SentryConfig where
  "demoConfig = \<lparr>authToken = ''token'', org = ''acme'', baseUrl = ''https://sentry.io/api/0''\<rparr>"

definition reply :: "nat \<Rightarrow> (string \<times> string) list \<Rightarrow> string \<Rightarrow> 'a option \<Rightarrow> 'a Response" where
  "reply code hs txt js =
     \<lparr>status = code, statusText = [], resp_headers = hs, body_text = txt, body_json = js\<rparr>"

text \<open>The unfolding equations of the two partial functions, for evaluation.\<close>

declare request.simps [code]

declare getIssues_loop.simps [code]

text \<open>The client after one round of \<open>request\<close> that \<^verbatim>\<open>fetch\<close> answered with \<open>r\<close>: the
  pre-request wait, the \<^verbatim>\<open>fetch\<close>, the update of the rate-limit state.\<close>

definition afterResponse ::
  "'a env \<Rightarrow> SentryConfig \<Rightarrow> string \<Rightarrow> RequestInit \<Rightarrow> 'a Response \<Rightarrow> client \<Rightarrow> client"
where
  "afterResponse e config path options r st =
     (let st2 = snd (fetch e (baseUrl config @ path) (fetchInit config options) (rateLimitWait e st))
      in st2\<lparr>rateLimit := updateRateLimitState r (rateLimit st2)\<rparr>)"

text \<open>The \<^verbatim>\<open>next\<close> link, when there is one, has a cursor that is not empty.\<close>

definition cursors_ok :: "PaginationLinks \<Rightarrow> bool" where
  "cursors_ok links = (\<forall>l. next_link links = Some l \<longrightarrow> cursor l \<noteq> [])"

text \<open>Scripted servers and options on which the theorems below are exercised.\<close>

definition notFoundEnv :: "nat list env" where
  "notFoundEnv = scripted [Resolved (reply 404 [] ''not found'' None)] 0"

definition secondPageFailsEnv :: "nat list env" where
  "secondPageFailsEnv =
     scripted [Resolved (reply 200
                 [(''link'', ''<https://sentry.io/api/0/next>; rel=\"next\"; results=\"true\"; cursor=\"c1\"'')]
                 [] (Some [1, 2])),
               Resolved (reply 404 [] ''not found'' None)] 0"

definition demoOptions :: "jsnum option \<Rightarrow> IssueOptions" where
  "demoOptions lim =
     \<lparr>project = None, query = Some ''crash'', statsPeriod = None, environment = None,
      opt_limit = lim\<rparr>"

definition busyReply :: "unit Response" where
  "busyReply = reply 429 [(''retry-after'', ''5'')] [] None"

definition busyTwiceEnv :: "unit env" where
  "busyTwiceEnv = scripted [Resolved busyReply, Resolved busyReply, Resolved (reply 200 [] ''{}'' (Some ()))] 0"

definition alwaysBusyEnv :: "unit env" where
  "alwaysBusyEnv = \<lparr>respond = (\<lambda>k url init. Resolved busyReply), clock = (\<lambda>k. 0), serialize = plainSerialize\<rparr>"

definition dateRetryEnv :: "unit env" where
  "dateRetryEnv =
     scripted [Resolved (reply 429 [(''retry-after'', ''Wed, 21 Oct 2015 07:28:00 GMT'')] [] None),
               Resolved (reply 200 [] ''{}'' (Some ()))] 0"

definition serverErrorEnv :: "unit env" where
  "serverErrorEnv = scripted [Resolved (reply 500 [] ''oops'' None)] 0"

definition unreachableEnv :: "unit env" where
  "unreachableEnv = scripted [Rejected ''ECONNREFUSED''] 0"

definition badJsonEnv :: "unit env" where
  "badJsonEnv = scripted [Resolved (reply 200 [] ''<html>'' None)] 0"

text \<open>A link header with one \<^verbatim>\<open>next\<close> segment.\<close>

definition linkNext :: "string \<Rightarrow> string \<Rightarrow> (string \<times> string) list" where
  "linkNext flag cur =
     [(''link'', ''<https://sentry.io/api/0/next>; rel=\"next\"; results=\"'' @ flag
                 @ ''\"; cursor=\"'' @ cur @ ''\"'')]"

definition threePagesEnv :: "nat list env" where
  "threePagesEnv =
     scripted [Resolved (reply 200 (linkNext ''true'' ''c1'') [] (Some [1, 2])),
               Resolved (reply 200 (linkNext ''true'' ''c2'') [] (Some [3, 4])),
               Resolved (reply 200 (linkNext ''false'' ''c3'') [] (Some [5, 6]))] 0"

definition lastPageEnv :: "nat list env" where
  "lastPageEnv =
     scripted [Resolved (reply 200 (linkNext ''false'' ''c1'') [] (Some [1, 2])),
               Resolved (reply 200 (linkNext ''false'' ''c2'') [] (Some [3, 4]))] 0"

definition bigPageEnv :: "nat list env" where
  "bigPageEnv = scripted [Resolved (reply 200 (linkNext ''true'' ''c1'') [] (Some [0..<30]))] 0"

text \<open>Six pages of five records, each announcing a next page.\<close>

definition sixPagesEnv :: "nat list env" where
  "sixPagesEnv =
     scripted (map (\<lambda>k. Resolved (reply 200 (linkNext ''true'' ''c'') [] (Some (replicate 5 k))))
                 [0..<6]) 0"

text \<open>The number of \<^verbatim>\<open>fetch\<close> calls a client has made.\<close>

definition fetchCount :: "client \<Rightarrow> nat" where
  "fetchCount st = length (filter is_Fetch (trace st))"

section \<open>The link-header decoder\<close>

lemma star_splits_append: "(p, r) \<in> set (star_splits c s) \<Longrightarrow> s = p @ r"
  by (induction s arbitrary: p) (auto split: if_splits)

lemma rx_seq_lits_prefix: "rx_seq (map Lit w @ post) s \<noteq> [] \<Longrightarrow> prefix w s"
  by (induction w arbitrary: s) (auto split: list.splits if_splits)

lemma concat_map_nonempty: "concat (map f xs) \<noteq> [] \<Longrightarrow> \<exists>x \<in> set xs. f x \<noteq> []"
  by (induction xs) auto

text \<open>A match of an expression that holds a run of literal characters holds that run.\<close>

lemma rx_seq_contains_lits:
  "rx_seq (pre @ map Lit w @ post) s \<noteq> [] \<Longrightarrow> sublist w s"
proof (induction pre arbitrary: s)
  case Nil
  then show ?case using rx_seq_lits_prefix by auto
next
  case (Cons it pre)
  show ?case
  proof (cases it)
    case (Lit c)
    with Cons.prems obtain xs where s: "s = c # xs" and ne: "rx_seq (pre @ map Lit w @ post) xs \<noteq> []"
      by (auto split: list.splits if_splits)
    from Cons.IH [OF ne] show ?thesis
      unfolding s by (simp add: sublist_Cons_right)
  next
    case (Star c)
    with Cons.prems obtain p r where pr: "(p, r) \<in> set (star_splits c s)"
      and ne: "rx_seq (pre @ map Lit w @ post) r \<noteq> []"
      by (auto dest!: concat_map_nonempty)
    from Cons.IH [OF ne] star_splits_append [OF pr] show ?thesis
      by (auto simp: sublist_append)
  next
    case (Plus c)
    with Cons.prems obtain p r where pr: "(p, r) \<in> set (star_splits c s)"
      and ne: "rx_seq (pre @ map Lit w @ post) r \<noteq> []"
      by (auto dest!: concat_map_nonempty split: if_splits)
    from Cons.IH [OF ne] star_splits_append [OF pr] show ?thesis
      by (auto simp: sublist_append)
  next
    case (CapPlus c)
    with Cons.prems obtain p r where pr: "(p, r) \<in> set (star_splits c s)"
      and ne: "rx_seq (pre @ map Lit w @ post) r \<noteq> []"
      by (auto dest!: concat_map_nonempty split: if_splits)
    from Cons.IH [OF ne] star_splits_append [OF pr] show ?thesis
      by (auto simp: sublist_append)
  qed
qed

lemma rx_search_contains_lits:
  "rx_search (pre @ map Lit w @ post) s = Some m \<Longrightarrow> sublist w s"
proof (induction s)
  case Nil
  then show ?case
    using rx_seq_contains_lits [of pre w post "[]"]
    by (auto simp: rx_search.simps [of _ "[]"] split: list.splits)
next
  case (Cons x xs)
  show ?case
  proof (cases "rx_seq (pre @ map Lit w @ post) (x # xs)")
    case Nil
    with Cons show ?thesis
      by (auto simp: rx_search.simps [of _ "x # xs"] sublist_Cons_right)
  next
    case (Cons m' ms)
    then show ?thesis using rx_seq_contains_lits [of pre w post "x # xs"] by auto
  qed
qed

lemma linkRegex_rel: "\<exists>pre post. linkRegex = pre @ map Lit ''rel=\"'' @ post"
  unfolding linkRegex_def by (intro exI) (rule refl)

lemma linkRegex_results: "\<exists>pre post. linkRegex = pre @ map Lit ''results=\"'' @ post"
proof -
  let ?pre = "[Lit CHR ''<'', Plus (Not CHR ''>''), Lit CHR ''>'', Star Space, Lit CHR '';'', Star Space]
     @ map Lit ''rel=\"'' @ [CapPlus Word] @ map Lit ''\";'' @ [Star Space]"
  let ?post = "[CapPlus Word] @ map Lit ''\";'' @ [Star Space]
     @ map Lit ''cursor=\"'' @ [CapPlus (Not CHR 0x22), Lit CHR 0x22]"
  have "linkRegex = ?pre @ map Lit ''results=\"'' @ ?post"
    unfolding linkRegex_def append_assoc by (rule refl)
  then show ?thesis by (intro exI)
qed

lemma linkRegex_cursor: "\<exists>pre post. linkRegex = pre @ map Lit ''cursor=\"'' @ post"
proof -
  let ?pre = "[Lit CHR ''<'', Plus (Not CHR ''>''), Lit CHR ''>'', Star Space, Lit CHR '';'', Star Space]
     @ map Lit ''rel=\"'' @ [CapPlus Word] @ map Lit ''\";'' @ [Star Space]
     @ map Lit ''results=\"'' @ [CapPlus Word] @ map Lit ''\";'' @ [Star Space]"
  let ?post = "[CapPlus (Not CHR 0x22), Lit CHR 0x22]"
  have "linkRegex = ?pre @ map Lit ''cursor=\"'' @ ?post"
    unfolding linkRegex_def append_assoc by (rule refl)
  then show ?thesis by (intro exI)
qed

text \<open>A part that the link expression matches holds the three attribute names.\<close>

lemma link_match_attrs:
  assumes "rx_search linkRegex part = Some m"
  shows "sublist ''rel=\"'' part" "sublist ''results=\"'' part" "sublist ''cursor=\"'' part"
proof -
  from linkRegex_rel obtain pre post
    where "linkRegex = pre @ map Lit ''rel=\"'' @ post" by blast
  with assms show "sublist ''rel=\"'' part"
    using rx_search_contains_lits [of pre "''rel=\"''" post part m] by simp
  from linkRegex_results obtain pre post
    where "linkRegex = pre @ map Lit ''results=\"'' @ post" by blast
  with assms show "sublist ''results=\"'' part"
    using rx_search_contains_lits [of pre "''results=\"''" post part m] by simp
  from linkRegex_cursor obtain pre post
    where "linkRegex = pre @ map Lit ''cursor=\"'' @ post" by blast
  with assms show "sublist ''cursor=\"'' part"
    using rx_search_contains_lits [of pre "''cursor=\"''" post part m] by simp
qed

lemma linkStep_no_match: "rx_search linkRegex part = None \<Longrightarrow> linkStep links part = links"
  by (simp add: linkStep_def)

lemma linkStep_missing_attr:
  assumes "\<not> sublist ''cursor=\"'' part \<or> \<not> sublist ''rel=\"'' part \<or> \<not> sublist ''results=\"'' part"
  shows "linkStep links part = links"
proof (cases "rx_search linkRegex part")
  case None
  then show ?thesis by (rule linkStep_no_match)
next
  case (Some m)
  with assms link_match_attrs [OF Some] show ?thesis by blast
qed

text \<open>
  Claim C5. The decoder maps the segment
  \<^verbatim>\<open><u>; rel="next"; results="true"; cursor="abc"\<close> to exactly the link set whose \<^verbatim>\<open>next\<close>
  is the cursor \<^verbatim>\<open>abc\<close> with results true; it maps an absent header to the empty link
  set; a segment in which \<^verbatim>\<open>cursor="\<close>, \<^verbatim>\<open>rel="\<close> or \<^verbatim>\<open>results="\<close> does not occur leaves the
  links as they were; and so does a segment that matches with a relation other than
  \<^verbatim>\<open>next\<close> and \<^verbatim>\<open>previous\<close>. The decoder is a total function: no input makes it fail.
\<close>

theorem parseLinkHeader_decode:
  "parseLinkHeader (Some ''<u>; rel=\"next\"; results=\"true\"; cursor=\"abc\"'')
     = \<lparr>next_link = Some \<lparr>cursor = ''abc'', results = True\<rparr>, previous_link = None\<rparr>
   \<and> parseLinkHeader None = \<lparr>next_link = None, previous_link = None\<rparr>
   \<and> (\<not> sublist ''cursor=\"'' part \<or> \<not> sublist ''rel=\"'' part \<or> \<not> sublist ''results=\"'' part
        \<longrightarrow> linkStep links part = links)
   \<and> (rx_search linkRegex part' = Some [rel, res, cur] \<and> rel \<noteq> ''next'' \<and> rel \<noteq> ''previous''
        \<longrightarrow> linkStep links part' = links)"
proof -
  have a: "parseLinkHeader (Some ''<u>; rel=\"next\"; results=\"true\"; cursor=\"abc\"'')
     = \<lparr>next_link = Some \<lparr>cursor = ''abc'', results = True\<rparr>, previous_link = None\<rparr>"
    by code_simp
  have b: "parseLinkHeader None = \<lparr>next_link = None, previous_link = None\<rparr>"
    by (simp add: parseLinkHeader_def noLinks_def)
  have c: "\<not> sublist ''cursor=\"'' part \<or> \<not> sublist ''rel=\"'' part \<or> \<not> sublist ''results=\"'' part
        \<longrightarrow> linkStep links part = links"
    using linkStep_missing_attr by blast
  have d: "rx_search linkRegex part' = Some [rel, res, cur] \<and> rel \<noteq> ''next'' \<and> rel \<noteq> ''previous''
        \<longrightarrow> linkStep links part' = links"
    by (simp add: linkStep_def)
  from a b c d show ?thesis by blast
qed

theorem parseLinkHeader_decode_witness:
  "\<not> sublist ''cursor=\"'' ''<u>; rel=\"next\"; results=\"true\"''
   \<and> linkStep \<lparr>next_link = Some \<lparr>cursor = ''k'', results = True\<rparr>, previous_link = None\<rparr>
        ''<u>; rel=\"next\"; results=\"true\"''
      = \<lparr>next_link = Some \<lparr>cursor = ''k'', results = True\<rparr>, previous_link = None\<rparr>
   \<and> rx_search linkRegex ''<u>; rel=\"last\"; results=\"true\"; cursor=\"abc\"''
      = Some [''last'', ''true'', ''abc'']
   \<and> linkStep \<lparr>next_link = Some \<lparr>cursor = ''k'', results = True\<rparr>, previous_link = None\<rparr>
        ''<u>; rel=\"last\"; results=\"true\"; cursor=\"abc\"''
      = \<lparr>next_link = Some \<lparr>cursor = ''k'', results = True\<rparr>, previous_link = None\<rparr>"
proof -
  have h1: "\<not> sublist ''cursor=\"'' ''<u>; rel=\"next\"; results=\"true\"''"
    by code_simp
  have h2: "rx_search linkRegex ''<u>; rel=\"last\"; results=\"true\"; cursor=\"abc\"''
      = Some [''last'', ''true'', ''abc'']"
    by code_simp
  have h3: "''last'' \<noteq> ''next'' \<and> ''last'' \<noteq> ''previous''"
    by simp
  show ?thesis
    using h1 h2 h3
      parseLinkHeader_decode [where part = "''<u>; rel=\"next\"; results=\"true\"''"
        and part' = "''<u>; rel=\"last\"; results=\"true\"; cursor=\"abc\"''"
        and rel = "''last''" and res = "''true''" and cur = "''abc''"
        and links = "\<lparr>next_link = Some \<lparr>cursor = ''k'', results = True\<rparr>, previous_link = None\<rparr>"]
    by blast
qed

section \<open>The rate-limit state\<close>

lemma parseInt_word: "parseInt ''soon'' = NaN"
  by code_simp

text \<open>
  What the update does with a header that is absent, empty, or starts with an integer: an
  absent or empty header leaves its field unchanged; a header from which \<^verbatim>\<open>parseInt\<close> reads
  an integer overwrites its field with that integer, \<^verbatim>\<open>reset\<close> with the integer times 1000.
\<close>

lemma updateRateLimitState_fields:
  "((header_get r ''x-sentry-rate-limit-remaining'' = None
      \<or> header_get r ''x-sentry-rate-limit-remaining'' = Some [])
      \<longrightarrow> remaining (updateRateLimitState r rl) = remaining rl)
   \<and> (header_get r ''x-sentry-rate-limit-remaining'' = Some h1 \<and> h1 \<noteq> [] \<and> parseInt h1 = Num n1
      \<longrightarrow> remaining (updateRateLimitState r rl) = Num n1)
   \<and> ((header_get r ''x-sentry-rate-limit-limit'' = None
      \<or> header_get r ''x-sentry-rate-limit-limit'' = Some [])
      \<longrightarrow> limit (updateRateLimitState r rl) = limit rl)
   \<and> (header_get r ''x-sentry-rate-limit-limit'' = Some h2 \<and> h2 \<noteq> [] \<and> parseInt h2 = Num n2
      \<longrightarrow> limit (updateRateLimitState r rl) = Num n2)
   \<and> ((header_get r ''x-sentry-rate-limit-reset'' = None
      \<or> header_get r ''x-sentry-rate-limit-reset'' = Some [])
      \<longrightarrow> reset (updateRateLimitState r rl) = reset rl)
   \<and> (header_get r ''x-sentry-rate-limit-reset'' = Some h3 \<and> h3 \<noteq> [] \<and> parseInt h3 = Num n3
      \<longrightarrow> reset (updateRateLimitState r rl) = Num (n3 * 1000))"
  by (auto simp: updateRateLimitState_def Let_def)

lemma updateRateLimitState_fields_example:
  "updateRateLimitState
     (reply 200 [(''x-sentry-rate-limit-remaining'', ''42''),
                 (''x-sentry-rate-limit-reset'', ''1700000000'')] [] (None :: unit option))
     initialRateLimit
     = \<lparr>remaining = Num 42, limit = Num 100, reset = Num 1700000000000\<rparr>
   \<and> updateRateLimitState
     (reply 200 [(''x-sentry-rate-limit-remaining'', []),
                 (''x-sentry-rate-limit-limit'', ''40'')] [] (None :: unit option))
     initialRateLimit
     = \<lparr>remaining = Num 100, limit = Num 40, reset = Num 0\<rparr>"
proof -
  let ?r1 = "reply 200 [(''x-sentry-rate-limit-remaining'', ''42''),
                 (''x-sentry-rate-limit-reset'', ''1700000000'')] [] (None :: unit option)"
  let ?r2 = "reply 200 [(''x-sentry-rate-limit-remaining'', []),
                 (''x-sentry-rate-limit-limit'', ''40'')] [] (None :: unit option)"
  have p1: "parseInt ''42'' = Num 42" by code_simp
  have p2: "parseInt ''1700000000'' = Num 1700000000" by code_simp
  have p3: "parseInt ''40'' = Num 40" by code_simp
  have g1: "header_get ?r1 ''x-sentry-rate-limit-remaining'' = Some ''42''"
    "header_get ?r1 ''x-sentry-rate-limit-limit'' = None"
    "header_get ?r1 ''x-sentry-rate-limit-reset'' = Some ''1700000000''"
    by (simp_all add: header_get_def reply_def)
  have g2: "header_get ?r2 ''x-sentry-rate-limit-remaining'' = Some []"
    "header_get ?r2 ''x-sentry-rate-limit-limit'' = Some ''40''"
    "header_get ?r2 ''x-sentry-rate-limit-reset'' = None"
    by (simp_all add: header_get_def reply_def)
  have f1: "remaining (updateRateLimitState ?r1 initialRateLimit) = Num 42
      \<and> limit (updateRateLimitState ?r1 initialRateLimit) = limit initialRateLimit
      \<and> reset (updateRateLimitState ?r1 initialRateLimit) = Num (1700000000 * 1000)"
    using updateRateLimitState_fields [where r = ?r1 and rl = initialRateLimit
        and ?h1.0 = "''42''" and ?n1.0 = 42 and ?h3.0 = "''1700000000''" and ?n3.0 = 1700000000]
      p1 p2 g1 by simp
  have f2: "remaining (updateRateLimitState ?r2 initialRateLimit) = remaining initialRateLimit
      \<and> limit (updateRateLimitState ?r2 initialRateLimit) = Num 40
      \<and> reset (updateRateLimitState ?r2 initialRateLimit) = reset initialRateLimit"
    using updateRateLimitState_fields [where r = ?r2 and rl = initialRateLimit
        and ?h2.0 = "''40''" and ?n2.0 = 40]
      p3 g2 by simp
  have eq: "\<And>x y :: RateLimitState.
      remaining x = remaining y \<Longrightarrow> limit x = limit y \<Longrightarrow> reset x = reset y \<Longrightarrow> x = y"
    by simp
  show ?thesis
  proof
    show "updateRateLimitState ?r1 initialRateLimit
        = \<lparr>remaining = Num 42, limit = Num 100, reset = Num 1700000000000\<rparr>"
      using f1 by (intro eq) (simp_all add: initialRateLimit_def)
    show "updateRateLimitState ?r2 initialRateLimit
        = \<lparr>remaining = Num 100, limit = Num 40, reset = Num 0\<rparr>"
      using f2 by (intro eq) (simp_all add: initialRateLimit_def)
  qed
qed

text \<open>
  Claim C4 asks that a rate-limit header that cannot be read as a number leave its field
  unchanged. The code does not do that: the guard \<^verbatim>\<open>if (header)\<close> tests presence only, so a
  present header from which \<^verbatim>\<open>parseInt\<close> reads \<^verbatim>\<open>NaN\<close> overwrites the field with
  \<^verbatim>\<open>NaN\<close>. With \<^verbatim>\<open>remaining = 0\<close> and a reset 8000 ms ahead the executor would wait
  8000 ms; after a response whose reset header is an HTTP date it does not wait at all.
\<close>

theorem updateRateLimitState_unparseable:
  "parseInt ''soon'' = NaN
   \<and> remaining (updateRateLimitState
        (reply 200 [(''x-sentry-rate-limit-remaining'', ''soon'')] [] (None :: unit option))
        initialRateLimit) = NaN
   \<and> remaining (updateRateLimitState
        (reply 200 [(''x-sentry-rate-limit-remaining'', ''soon'')] [] (None :: unit option))
        initialRateLimit) \<noteq> remaining initialRateLimit
   \<and> delays (trace (rateLimitWait (scripted ([] :: unit outcome list) 1000)
        \<lparr>rateLimit = \<lparr>remaining = Num 0, limit = Num 100, reset = Num 9000\<rparr>, trace = []\<rparr>))
      = [Num 8000]
   \<and> delays (trace (rateLimitWait (scripted ([] :: unit outcome list) 1000)
        \<lparr>rateLimit = updateRateLimitState
           (reply 200 [(''x-sentry-rate-limit-reset'', ''Wed, 21 Oct 2015 07:28:00 GMT'')] []
              (None :: unit option))
           \<lparr>remaining = Num 0, limit = Num 100, reset = Num 9000\<rparr>,
         trace = []\<rparr>))
      = []"
proof -
  have a: "parseInt ''soon'' = NaN" by code_simp
  have b: "remaining (updateRateLimitState
        (reply 200 [(''x-sentry-rate-limit-remaining'', ''soon'')] [] (None :: unit option))
        initialRateLimit) = NaN"
    by code_simp
  have c: "remaining initialRateLimit \<noteq> NaN"
    by (simp add: initialRateLimit_def)
  have d: "delays (trace (rateLimitWait (scripted ([] :: unit outcome list) 1000)
        \<lparr>rateLimit = \<lparr>remaining = Num 0, limit = Num 100, reset = Num 9000\<rparr>, trace = []\<rparr>))
      = [Num 8000]"
    by code_simp
  have e: "delays (trace (rateLimitWait (scripted ([] :: unit outcome list) 1000)
        \<lparr>rateLimit = updateRateLimitState
           (reply 200 [(''x-sentry-rate-limit-reset'', ''Wed, 21 Oct 2015 07:28:00 GMT'')] []
              (None :: unit option))
           \<lparr>remaining = Num 0, limit = Num 100, reset = Num 9000\<rparr>,
         trace = []\<rparr>))
      = []"
    by code_simp
  from a b c d e show ?thesis by simp
qed

lemma delays_append: "delays (xs @ ys) = delays xs @ delays ys"
  by (induction xs rule: delays.induct) auto

text \<open>
  Claim C2. When both readings of the clock in the pre-request check give \<open>now\<close>, the
  executor suspends for exactly \<^verbatim>\<open>reset - now\<close> if \<^verbatim>\<open>remaining <= 0\<close> and \<^verbatim>\<open>now < reset\<close>, and
  does not suspend at all otherwise; with the initial rate-limit state the check changes
  nothing, whatever the clock reads.
\<close>

theorem rateLimitWait_duration:
  "(clock e (length (filter is_DateNow (trace st))) = now
      \<and> clock e (Suc (length (filter is_DateNow (trace st)))) = now
    \<longrightarrow> delays (trace (rateLimitWait e st))
        = delays (trace st)
          @ (if js_le (remaining (rateLimit st)) (Num 0) \<and> js_lt (Num now) (reset (rateLimit st))
             then [js_sub (reset (rateLimit st)) (Num now)] else []))
   \<and> (rateLimit st = initialRateLimit \<longrightarrow> rateLimitWait e st = st)"
  by (auto simp: rateLimitWait_def dateNow_def delay_def Let_def delays_append
      initialRateLimit_def)

theorem rateLimitWait_duration_witness:
  "delays (trace (rateLimitWait (scripted ([] :: unit outcome list) 1000)
      \<lparr>rateLimit = \<lparr>remaining = Num 0, limit = Num 100, reset = Num 5000\<rparr>, trace = []\<rparr>))
     = [Num 4000]
   \<and> rateLimitWait (scripted ([] :: unit outcome list) 1000) newClient = newClient"
  using rateLimitWait_duration [where e = "scripted ([] :: unit outcome list) 1000" and now = 1000
      and st = "\<lparr>rateLimit = \<lparr>remaining = Num 0, limit = Num 100, reset = Num 5000\<rparr>, trace = []\<rparr>"]
    rateLimitWait_duration [where e = "scripted ([] :: unit outcome list) 1000" and st = newClient]
  by (simp add: scripted_def newClient_def)

section \<open>The request executor\<close>

lemma rateLimitWait_trace:
  "\<exists>w. trace (rateLimitWait e st) = trace st @ w \<and> filter is_Fetch w = []"
  by (auto simp: rateLimitWait_def dateNow_def delay_def Let_def)

lemma rateLimitWait_fetches:
  "filter is_Fetch (trace (rateLimitWait e st)) = filter is_Fetch (trace st)"
  using rateLimitWait_trace [of e st] by auto

lemma afterResponse_trace:
  "\<exists>w. trace (afterResponse e config path options r st)
          = trace st @ w @ [Fetch (baseUrl config @ path) (fetchInit config options)]
       \<and> filter is_Fetch w = []"
  using rateLimitWait_trace [of e st] by (auto simp: afterResponse_def fetch_def Let_def)

lemma afterResponse_fetches:
  "filter is_Fetch (trace (afterResponse e config path options r st))
     = filter is_Fetch (trace st) @ [Fetch (baseUrl config @ path) (fetchInit config options)]"
  using afterResponse_trace [of e config path options r st] by auto

text \<open>One round of \<open>request\<close>, by what \<^verbatim>\<open>fetch\<close> answers.\<close>

lemma request_resolved:
  assumes "respond e (length (filter is_Fetch (trace st))) (baseUrl config @ path)
             (fetchInit config options) = Resolved r"
  shows "request e config path options st =
     (if status r = 429
      then request e config path options
             (delay (retryAfter r) (afterResponse e config path options r st))
      else if \<not> ok r then Some (Inl (apiErrorOf r), afterResponse e config path options r st)
      else (case body_json r of
              None \<Rightarrow> Some (Inl JsonRejected, afterResponse e config path options r st)
            | Some d \<Rightarrow>
                Some (Inr \<lparr>data = d, pagination = parseLinkHeader (header_get r ''link'')\<rparr>,
                      afterResponse e config path options r st)))"
  using assms
  by (subst request.simps)
    (simp add: fetch_def afterResponse_def Let_def rateLimitWait_fetches split: option.splits)

lemma request_rejected:
  assumes "respond e (length (filter is_Fetch (trace st))) (baseUrl config @ path)
             (fetchInit config options) = Rejected why"
  shows "request e config path options st =
     Some (Inl (FetchRejected why),
           snd (fetch e (baseUrl config @ path) (fetchInit config options) (rateLimitWait e st)))"
  using assms
  by (subst request.simps) (simp add: fetch_def Let_def rateLimitWait_fetches)

text \<open>No call of \<open>request\<close> throws an error with status 429.\<close>

lemma request_never_429:
  "request e config path options st = Some y
     \<Longrightarrow> \<forall>m s b st'. y = (Inl (SentryApiError m s b), st') \<longrightarrow> s \<noteq> 429"
proof (induction e config path options st y
    rule: request.raw_induct [rotated, consumes 1, case_names step])
  case (step req e config path options st y)
  note IH = step(1) and body = step(2)
  obtain res st2
    where f: "fetch e (baseUrl config @ path) (fetchInit config options) (rateLimitWait e st) = (res, st2)"
    by force
  show ?case
  proof (cases res)
    case (Rejected why)
    with f body show ?thesis by (auto simp: Let_def)
  next
    case (Resolved r)
    show ?thesis
    proof (cases "status r = 429")
      case True
      with f Resolved body
      have "req e config path options
              (delay (retryAfter r) (st2\<lparr>rateLimit := updateRateLimitState r (rateLimit st2)\<rparr>)) = Some y"
        by (simp add: Let_def)
      then show ?thesis by (rule IH)
    next
      case False
      with f Resolved body show ?thesis
        by (cases "ok r"; cases "body_json r") (auto simp: Let_def apiErrorOf_def)
    qed
  qed
qed

text \<open>Against a server that rejects every request with 429, \<open>request\<close> never settles.\<close>

lemma request_settles_not_all_429:
  "request e config path options st = Some y
     \<Longrightarrow> \<not> (\<forall>k. \<exists>r. respond e k (baseUrl config @ path) (fetchInit config options) = Resolved r
              \<and> status r = 429)"
proof (induction e config path options st y
    rule: request.raw_induct [rotated, consumes 1, case_names step])
  case (step req e config path options st y)
  note IH = step(1) and body = step(2)
  show ?case
  proof
    assume all: "\<forall>k. \<exists>r. respond e k (baseUrl config @ path) (fetchInit config options) = Resolved r
              \<and> status r = 429"
    then obtain r where r: "respond e (length (filter is_Fetch (trace (rateLimitWait e st))))
        (baseUrl config @ path) (fetchInit config options) = Resolved r" "status r = 429"
      by blast
    with body
    have "req e config path options
            (delay (retryAfter r)
               ((snd (fetch e (baseUrl config @ path) (fetchInit config options) (rateLimitWait e st)))
                  \<lparr>rateLimit := updateRateLimitState r
                     (rateLimit (snd (fetch e (baseUrl config @ path) (fetchInit config options)
                        (rateLimitWait e st))))\<rparr>)) = Some y"
      by (simp add: Let_def fetch_def)
    from IH [OF this] all show False by blast
  qed
qed

lemma parseInt_5: "parseInt ''5'' = Num 5"
  by code_simp

lemma retryAfter_5: "header_get r ''retry-after'' = Some ''5'' \<Longrightarrow> retryAfter r = Num 5000"
  by (simp add: retryAfter_def parseInt_5)

lemma parseInt_60: "parseInt ''60'' = Num 60"
  by code_simp

lemma retryAfter_default:
  "header_get r ''retry-after'' = None \<or> header_get r ''retry-after'' = Some []
     \<Longrightarrow> retryAfter r = Num 60000"
  by (auto simp: retryAfter_def parseInt_60)

lemma retryAfter_unparseable:
  "header_get r ''retry-after'' = Some h \<Longrightarrow> h \<noteq> [] \<Longrightarrow> parseInt h = NaN \<Longrightarrow> retryAfter r = NaN"
  by (simp add: retryAfter_def)

lemma retries_429:
  assumes "\<forall>i<n. \<exists>r. respond e (length (filter is_Fetch (trace st)) + i) (baseUrl config @ path)
                        (fetchInit config options) = Resolved r
                    \<and> status r = 429 \<and> header_get r ''retry-after'' = Some ''5''"
  shows "\<exists>st' ws. request e config path options st = request e config path options st'
           \<and> length ws = n \<and> (\<forall>w \<in> set ws. filter is_Fetch w = [])
           \<and> trace st' = trace st @ concat (map (\<lambda>w. w @ [Fetch (baseUrl config @ path)
                 (fetchInit config options), Delay (Num 5000)]) ws)"
  using assms
proof (induction n arbitrary: st)
  case 0
  show ?case by (rule exI [of _ st], rule exI [of _ "[]"]) simp
next
  case (Suc n)
  let ?url = "baseUrl config @ path" and ?init = "fetchInit config options"
  from Suc.prems obtain r
    where r: "respond e (length (filter is_Fetch (trace st))) ?url ?init = Resolved r"
      "status r = 429" "header_get r ''retry-after'' = Some ''5''"
    by force
  let ?st1 = "delay (Num 5000) (afterResponse e config path options r st)"
  from afterResponse_trace [of e config path options r st] obtain w0
    where w0: "trace (afterResponse e config path options r st) = trace st @ w0 @ [Fetch ?url ?init]"
      "filter is_Fetch w0 = []"
    by blast
  have tr1: "trace ?st1 = trace st @ w0 @ [Fetch ?url ?init, Delay (Num 5000)]"
    using w0 by (simp add: delay_def)
  have cnt: "length (filter is_Fetch (trace ?st1)) = Suc (length (filter is_Fetch (trace st)))"
    using w0 by (simp add: tr1)
  have step: "request e config path options st = request e config path options ?st1"
    using request_resolved [OF r(1)] r(2) retryAfter_5 [OF r(3)] by simp
  have "\<forall>i<n. \<exists>r. respond e (length (filter is_Fetch (trace ?st1)) + i) ?url ?init = Resolved r
                    \<and> status r = 429 \<and> header_get r ''retry-after'' = Some ''5''"
  proof (intro allI impI)
    fix i assume "i < n"
    then have "Suc i < Suc n" by simp
    with Suc.prems show "\<exists>r. respond e (length (filter is_Fetch (trace ?st1)) + i) ?url ?init = Resolved r
                    \<and> status r = 429 \<and> header_get r ''retry-after'' = Some ''5''"
      unfolding cnt by (metis add_Suc_shift)
  qed
  from Suc.IH [OF this] obtain st' ws
    where ih: "request e config path options ?st1 = request e config path options st'"
      "length ws = n" "\<forall>w \<in> set ws. filter is_Fetch w = []"
      "trace st' = trace ?st1 @ concat (map (\<lambda>w. w @ [Fetch ?url ?init, Delay (Num 5000)]) ws)"
    by blast
  show ?case
  proof (intro exI conjI)
    show "request e config path options st = request e config path options st'"
      using step ih(1) by simp
    show "length (w0 # ws) = Suc n" using ih(2) by simp
    show "\<forall>w \<in> set (w0 # ws). filter is_Fetch w = []" using ih(3) w0(2) by simp
    show "trace st' = trace st @ concat (map (\<lambda>w. w @ [Fetch ?url ?init, Delay (Num 5000)]) (w0 # ws))"
      using ih(4) tr1 by simp
  qed
qed

lemma filter_rounds:
  "\<forall>w \<in> set ws. filter is_Fetch w = []
     \<Longrightarrow> filter is_Fetch (concat (map (\<lambda>w. w @ [Fetch u i, Delay d]) ws))
           = replicate (length ws) (Fetch u i)"
  by (induction ws) auto

text \<open>A round that \<^verbatim>\<open>fetch\<close> does not answer with 429 settles the call, after one
  \<^verbatim>\<open>fetch\<close>.\<close>

lemma request_settles:
  assumes "respond e (length (filter is_Fetch (trace st))) (baseUrl config @ path)
             (fetchInit config options) = out"
    and "\<forall>r. out = Resolved r \<longrightarrow> status r \<noteq> 429"
  shows "\<exists>res st1. request e config path options st = Some (res, st1)
           \<and> filter is_Fetch (trace st1)
               = filter is_Fetch (trace st) @ [Fetch (baseUrl config @ path) (fetchInit config options)]"
proof (cases out)
  case (Rejected why)
  with assms(1) request_rejected [of e st config path options why]
  show ?thesis by (simp add: fetch_def rateLimitWait_fetches)
next
  case (Resolved r)
  with assms(2) have "status r \<noteq> 429" by simp
  with Resolved assms(1) request_resolved [of e st config path options r]
  show ?thesis
    by (cases "ok r"; cases "body_json r") (simp_all add: afterResponse_fetches)
qed

lemma retries_429_settle:
  assumes "\<forall>i<n. \<exists>r. respond e (length (filter is_Fetch (trace st)) + i) (baseUrl config @ path)
                        (fetchInit config options) = Resolved r
                    \<and> status r = 429 \<and> header_get r ''retry-after'' = Some ''5''"
    and "respond e (length (filter is_Fetch (trace st)) + n) (baseUrl config @ path)
           (fetchInit config options) = out"
    and "\<forall>r. out = Resolved r \<longrightarrow> status r \<noteq> 429"
  shows "\<exists>res st1. request e config path options st = Some (res, st1)
           \<and> filter is_Fetch (trace st1)
               = filter is_Fetch (trace st)
                 @ replicate (Suc n) (Fetch (baseUrl config @ path) (fetchInit config options))"
proof -
  let ?f = "Fetch (baseUrl config @ path) (fetchInit config options)"
  from retries_429 [OF assms(1)] obtain st' ws
    where a: "request e config path options st = request e config path options st'"
      and b: "length ws = n" "\<forall>w \<in> set ws. filter is_Fetch w = []"
      and c: "trace st' = trace st @ concat (map (\<lambda>w. w @ [?f, Delay (Num 5000)]) ws)"
    by blast
  have fs: "filter is_Fetch (trace st') = filter is_Fetch (trace st) @ replicate n ?f"
    unfolding c using filter_rounds [OF b(2)] b(1) by simp
  then have "length (filter is_Fetch (trace st')) = length (filter is_Fetch (trace st)) + n"
    by simp
  with assms(2)
  have "respond e (length (filter is_Fetch (trace st'))) (baseUrl config @ path)
           (fetchInit config options) = out"
    by simp
  from request_settles [OF this assms(3)] obtain res st1
    where "request e config path options st' = Some (res, st1)"
      and "filter is_Fetch (trace st1) = filter is_Fetch (trace st') @ [?f]"
    by blast
  with a fs have "request e config path options st = Some (res, st1)
      \<and> filter is_Fetch (trace st1) = filter is_Fetch (trace st) @ replicate (Suc n) ?f"
    by (simp add: replicate_append_same)
  then show ?thesis by blast
qed

section \<open>The pagination driver\<close>

lemma loop_error:
  assumes "request e config (pagePath e config options (issueParams options) cur) noInit st
             = Some (Inl err, st')"
  shows "getIssues_loop e config options issues cur st = Some (Inl err, st')"
  using assms by (subst getIssues_loop.simps) simp

lemma loop_never_settles:
  assumes "request e config (pagePath e config options (issueParams options) cur) noInit st = None"
  shows "getIssues_loop e config options issues cur st = None"
  using assms by (subst getIssues_loop.simps) simp

lemma loop_last:
  assumes "request e config (pagePath e config options (issueParams options) cur) noInit st
             = Some (Inr r, st')"
    and "maxResultsOf options \<le> int (length (issues @ data r))
           \<or> \<not> truthy (nextCursor (pagination r))"
  shows "getIssues_loop e config options issues cur st
           = Some (Inr (slice0 (issues @ data r) (maxResultsOf options)), st')"
  using assms by (subst getIssues_loop.simps) (auto simp: Let_def)

lemma loop_continue:
  assumes "request e config (pagePath e config options (issueParams options) cur) noInit st
             = Some (Inr r, st')"
    and "int (length (issues @ data r)) < maxResultsOf options"
    and "truthy (nextCursor (pagination r))"
  shows "getIssues_loop e config options issues cur st
           = getIssues_loop e config options (issues @ data r) (nextCursor (pagination r)) st'"
  using assms by (subst getIssues_loop.simps) (auto simp: Let_def)

text \<open>What the loop returns is a slice of what it has accumulated.\<close>

lemma loop_result:
  "getIssues_loop e config options issues cur st = Some y
     \<Longrightarrow> \<forall>xs st'. y = (Inr xs, st') \<longrightarrow> (\<exists>acc. xs = slice0 (issues @ acc) (maxResultsOf options))"
proof (induction e config options issues cur st y
    rule: getIssues_loop.raw_induct [rotated, consumes 1, case_names step])
  case (step loop e config options issues cur st y)
  note IH = step(1) and body = step(2)
  from body obtain res st1
    where rq: "request e config (pagePath e config options (issueParams options) cur) noInit st
                 = Some (res, st1)"
    by (cases "request e config (pagePath e config options (issueParams options) cur) noInit st")
      auto
  show ?case
  proof (cases res)
    case (Inl err)
    with rq body show ?thesis by auto
  next
    case (Inr r)
    show ?thesis
    proof (cases "maxResultsOf options \<le> int (length (issues @ data r))
           \<or> \<not> truthy (nextCursor (pagination r))")
      case True
      with rq Inr body have "y = (Inr (slice0 (issues @ data r) (maxResultsOf options)), st1)"
        by (auto simp: Let_def split: if_splits)
      then show ?thesis by blast
    next
      case False
      with rq Inr body
      have "loop e config options (issues @ data r) (nextCursor (pagination r)) st1 = Some y"
        by (auto simp: Let_def split: if_splits)
      from IH [OF this]
      have ih: "\<forall>xs st'. y = (Inr xs, st')
          \<longrightarrow> (\<exists>acc. xs = slice0 ((issues @ data r) @ acc) (maxResultsOf options))" .
      show ?thesis
      proof (intro allI impI)
        fix xs st' assume "y = (Inr xs, st')"
        with ih obtain acc where "xs = slice0 ((issues @ data r) @ acc) (maxResultsOf options)"
          by blast
        then show "\<exists>acc. xs = slice0 (issues @ acc) (maxResultsOf options)"
          by (intro exI [of _ "data r @ acc"]) simp
      qed
    qed
  qed
qed

lemma slice0_length: "0 \<le> m \<Longrightarrow> length (slice0 xs m) \<le> nat m"
  by (simp add: slice0_def)

lemma slice0_short: "int (length xs) \<le> m \<Longrightarrow> slice0 xs m = xs"
  by (auto simp: slice0_def)

lemma getIssues_bounded:
  assumes "getIssues e config options st = Some (Inr xs, st')" and "0 \<le> maxResultsOf options"
  shows "length xs \<le> nat (maxResultsOf options)"
  using loop_result [OF assms(1) [unfolded getIssues_def]] slice0_length [OF assms(2)]
  by auto

text \<open>A cursor that the decoder returns is not empty.\<close>

lemma star_splits_nonempty: "star_splits c s \<noteq> []"
  by (cases s) auto

lemma rx_seq_captures_nonempty: "m \<in> set (rx_seq items s) \<Longrightarrow> [] \<notin> set m"
proof (induction items s arbitrary: m rule: rx_seq.induct)
  case (1 s)
  then show ?case by simp
next
  case (2 c items s)
  then show ?case by (auto split: list.splits if_splits)
next
  case (3 c items s)
  then show ?case by auto
next
  case (4 c items s)
  then show ?case by (auto split: if_splits)
next
  case (5 c items s)
  then show ?case by (auto split: if_splits)
qed

lemma rx_search_captures_nonempty: "rx_search items s = Some m \<Longrightarrow> [] \<notin> set m"
proof (induction s)
  case Nil
  then have "m \<in> set (rx_seq items [])"
    by (auto simp: rx_search.simps [of _ "[]"] split: list.splits)
  then show ?case by (rule rx_seq_captures_nonempty)
next
  case (Cons x xs)
  show ?case
  proof (cases "rx_seq items (x # xs)")
    case Nil
    with Cons show ?thesis by (auto simp: rx_search.simps [of _ "x # xs"])
  next
    case (Cons m' ms)
    with Cons.prems have "m \<in> set (rx_seq items (x # xs))"
      by (auto simp: rx_search.simps [of _ "x # xs"])
    then show ?thesis by (rule rx_seq_captures_nonempty)
  qed
qed

lemma linkStep_cursors_ok:
  assumes "cursors_ok links"
  shows "cursors_ok (linkStep links part)"
proof (cases "rx_search linkRegex part")
  case None
  with assms show ?thesis by (simp add: linkStep_def)
next
  case (Some m)
  from rx_search_captures_nonempty [OF Some] have ne: "[] \<notin> set m" .
  show ?thesis
  proof (cases "\<exists>rel res cur. m = [rel, res, cur]")
    case True
    then obtain rel res cur where m: "m = [rel, res, cur]" by blast
    with ne have "cur \<noteq> []" by auto
    with assms Some m show ?thesis
      by (simp add: linkStep_def cursors_ok_def)
  next
    case False
    then have "linkStep links part = links"
      using Some by (auto simp: linkStep_def split: list.splits)
    with assms show ?thesis by simp
  qed
qed

lemma foldl_linkStep_cursors_ok: "cursors_ok links \<Longrightarrow> cursors_ok (foldl linkStep links ps)"
  by (induction ps arbitrary: links) (auto simp: linkStep_cursors_ok)

lemma parseLinkHeader_cursor_nonempty:
  "next_link (parseLinkHeader h) = Some l \<Longrightarrow> cursor l \<noteq> []"
proof -
  have base: "cursors_ok noLinks"
    by (simp add: cursors_ok_def noLinks_def)
  have "cursors_ok (parseLinkHeader h)"
  proof (cases h)
    case None
    with base show ?thesis by (simp add: parseLinkHeader_def)
  next
    case (Some x)
    with base foldl_linkStep_cursors_ok [OF base] show ?thesis
      by (simp add: parseLinkHeader_def)
  qed
  then show "next_link (parseLinkHeader h) = Some l \<Longrightarrow> cursor l \<noteq> []"
    by (simp add: cursors_ok_def)
qed

lemma nextCursor_truthy:
  "nextCursor (parseLinkHeader h) = Some c \<Longrightarrow> truthy (nextCursor (parseLinkHeader h))"
  using parseLinkHeader_cursor_nonempty [of h]
  by (auto simp: nextCursor_def split: option.splits if_splits)

lemma nextCursor_none:
  "next_link links = None \<or> (\<exists>l. next_link links = Some l \<and> \<not> results l)
     \<Longrightarrow> nextCursor links = None"
  by (auto simp: nextCursor_def)

text \<open>
  Claim C7. When \<^verbatim>\<open>fetch\<close> answers with a status that is neither 429 nor in 200..299,
  \<open>request\<close> throws a \<^verbatim>\<open>SentryApiError\<close> that carries that status and the whole body
  text, after exactly one \<^verbatim>\<open>fetch\<close> (no retry). An error thrown by \<open>request\<close> inside
  the pagination loop leaves the loop, and \<^verbatim>\<open>getIssues\<close>, as that same error, whatever
  issues have been accumulated: the caller gets the error and no records.
\<close>

theorem request_error_surfaces:
  "(respond e (length (filter is_Fetch (trace st))) (baseUrl config @ path)
        (fetchInit config options) = Resolved r \<and> status r \<noteq> 429 \<and> \<not> ok r
      \<longrightarrow> request e config path options st
            = Some (Inl (SentryApiError
                          (''Sentry API error: '' @ decimal (status r) @ '' '' @ statusText r)
                          (status r) (body_text r)),
                    afterResponse e config path options r st)
          \<and> filter is_Fetch (trace (afterResponse e config path options r st))
            = filter is_Fetch (trace st) @ [Fetch (baseUrl config @ path) (fetchInit config options)])
   \<and> (request e' config (pagePath e' config opts (issueParams opts) cur) noInit st = Some (Inl err, st')
      \<longrightarrow> getIssues_loop e' config opts issues cur st = Some (Inl err, st'))
   \<and> (request e' config (pagePath e' config opts (issueParams opts) None) noInit st = Some (Inl err, st')
      \<longrightarrow> getIssues e' config opts st = Some (Inl err, st'))"
proof (intro conjI impI)
  assume h: "respond e (length (filter is_Fetch (trace st))) (baseUrl config @ path)
        (fetchInit config options) = Resolved r \<and> status r \<noteq> 429 \<and> \<not> ok r"
  then show "request e config path options st
            = Some (Inl (SentryApiError
                          (''Sentry API error: '' @ decimal (status r) @ '' '' @ statusText r)
                          (status r) (body_text r)),
                    afterResponse e config path options r st)"
    using request_resolved [of e st config path options r] by (simp add: apiErrorOf_def)
  show "filter is_Fetch (trace (afterResponse e config path options r st))
            = filter is_Fetch (trace st) @ [Fetch (baseUrl config @ path) (fetchInit config options)]"
    by (rule afterResponse_fetches)
next
  assume "request e' config (pagePath e' config opts (issueParams opts) cur) noInit st = Some (Inl err, st')"
  then show "getIssues_loop e' config opts issues cur st = Some (Inl err, st')"
    by (rule loop_error)
next
  assume "request e' config (pagePath e' config opts (issueParams opts) None) noInit st = Some (Inl err, st')"
  then show "getIssues e' config opts st = Some (Inl err, st')"
    unfolding getIssues_def by (rule loop_error)
qed

lemma demo_first_path:
  "pagePath notFoundEnv demoConfig (demoOptions None) (issueParams (demoOptions None)) None
     = ''/organizations/acme/issues/?query=crash''"
  by code_simp

theorem request_error_surfaces_witness:
  "request notFoundEnv demoConfig ''/organizations/acme/issues/?query=crash'' noInit newClient
     = Some (Inl (SentryApiError ''Sentry API error: 404 '' 404 ''not found''),
             \<lparr>rateLimit = initialRateLimit,
              trace = [Fetch ''https://sentry.io/api/0/organizations/acme/issues/?query=crash''
                         (fetchInit demoConfig noInit)]\<rparr>)
   \<and> getIssues notFoundEnv demoConfig (demoOptions None) newClient
     = Some (Inl (SentryApiError ''Sentry API error: 404 '' 404 ''not found''),
             \<lparr>rateLimit = initialRateLimit,
              trace = [Fetch ''https://sentry.io/api/0/organizations/acme/issues/?query=crash''
                         (fetchInit demoConfig noInit)]\<rparr>)
   \<and> getIssues secondPageFailsEnv demoConfig (demoOptions None) newClient
     = Some (Inl (SentryApiError ''Sentry API error: 404 '' 404 ''not found''),
             \<lparr>rateLimit = initialRateLimit,
              trace = [Fetch ''https://sentry.io/api/0/organizations/acme/issues/?query=crash''
                         (fetchInit demoConfig noInit),
                       Fetch ''https://sentry.io/api/0/organizations/acme/issues/?query=crash&cursor=c1''
                         (fetchInit demoConfig noInit)]\<rparr>)"
proof -
  let ?p = "''/organizations/acme/issues/?query=crash''"
  let ?r = "reply 404 [] ''not found'' (None :: nat list option)"
  let ?s = "\<lparr>rateLimit = initialRateLimit,
              trace = [Fetch ''https://sentry.io/api/0/organizations/acme/issues/?query=crash''
                         (fetchInit demoConfig noInit)]\<rparr>"
  have h: "respond notFoundEnv (length (filter is_Fetch (trace newClient))) (baseUrl demoConfig @ ?p)
        (fetchInit demoConfig noInit) = Resolved ?r \<and> status ?r \<noteq> 429 \<and> \<not> ok ?r"
    by (simp add: notFoundEnv_def scripted_def newClient_def reply_def ok_def)
  have d: "decimal (status ?r) = ''404''"
    by code_simp
  have a: "afterResponse notFoundEnv demoConfig ?p noInit ?r newClient = ?s"
    by code_simp
  have t: "statusText ?r = []" "body_text ?r = ''not found''" "status ?r = 404"
    by (simp_all add: reply_def)
  have one: "request notFoundEnv demoConfig ?p noInit newClient
     = Some (Inl (SentryApiError ''Sentry API error: 404 '' 404 ''not found''), ?s)"
    using request_error_surfaces [where e = notFoundEnv and st = newClient and config = demoConfig
        and path = ?p and options = noInit and r = ?r, THEN conjunct1] h d a t
    by simp
  have two: "getIssues notFoundEnv demoConfig (demoOptions None) newClient
     = Some (Inl (SentryApiError ''Sentry API error: 404 '' 404 ''not found''), ?s)"
    using request_error_surfaces [where e' = notFoundEnv and st = newClient and config = demoConfig
        and opts = "demoOptions None"
        and err = "SentryApiError ''Sentry API error: 404 '' 404 ''not found''" and st' = ?s,
        THEN conjunct2, THEN conjunct2] one demo_first_path
    by simp
  have three: "getIssues secondPageFailsEnv demoConfig (demoOptions None) newClient
     = Some (Inl (SentryApiError ''Sentry API error: 404 '' 404 ''not found''),
             \<lparr>rateLimit = initialRateLimit,
              trace = [Fetch ''https://sentry.io/api/0/organizations/acme/issues/?query=crash''
                         (fetchInit demoConfig noInit),
                       Fetch ''https://sentry.io/api/0/organizations/acme/issues/?query=crash&cursor=c1''
                         (fetchInit demoConfig noInit)]\<rparr>)"
    by code_simp
  from one two three show ?thesis by blast
qed

text \<open>
  Claim C8. If the next \<open>n\<close> answers of \<^verbatim>\<open>fetch\<close> are 429 with \<^verbatim>\<open>retry-after: 5\<close>, the
  call of \<open>request\<close> goes through \<open>n\<close> rounds, each made of the pre-request check
  (which fetches nothing), one \<^verbatim>\<open>fetch\<close> of the same URL with the same options, and
  \<^verbatim>\<open>delay(5000)\<close>; then it continues as a call from the state reached. This holds for every
  \<open>n\<close>. No call of \<open>request\<close> throws an error of status 429, and against a server that
  answers 429 for ever the call never settles. When the answer after the \<open>n\<close> rejections is
  not a 429, the call settles after exactly \<open>n + 1\<close> fetches of that same request: one
  re-issue for each rejection. (The model records the argument of
  \<^verbatim>\<open>delay\<close>; that the suspension lasts at least that long is the contract of the timer.)
\<close>

theorem request_retries_429:
  "((\<forall>i<n. \<exists>r. respond e (length (filter is_Fetch (trace st)) + i) (baseUrl config @ path)
                   (fetchInit config options) = Resolved r
               \<and> status r = 429 \<and> header_get r ''retry-after'' = Some ''5'')
      \<longrightarrow> (\<exists>st' ws. request e config path options st = request e config path options st'
             \<and> length ws = n \<and> (\<forall>w \<in> set ws. filter is_Fetch w = [])
             \<and> trace st' = trace st @ concat (map (\<lambda>w. w @ [Fetch (baseUrl config @ path)
                   (fetchInit config options), Delay (Num 5000)]) ws)))
   \<and> (request e config path options st = Some (Inl (SentryApiError m s b), st'') \<longrightarrow> s \<noteq> 429)
   \<and> ((\<forall>k. \<exists>r. respond e k (baseUrl config @ path) (fetchInit config options) = Resolved r
              \<and> status r = 429)
      \<longrightarrow> request e config path options st = None)
   \<and> ((\<forall>i<n. \<exists>r. respond e (length (filter is_Fetch (trace st)) + i) (baseUrl config @ path)
                   (fetchInit config options) = Resolved r
               \<and> status r = 429 \<and> header_get r ''retry-after'' = Some ''5'')
        \<and> respond e (length (filter is_Fetch (trace st)) + n) (baseUrl config @ path)
              (fetchInit config options) = out
        \<and> (\<forall>r. out = Resolved r \<longrightarrow> status r \<noteq> 429)
      \<longrightarrow> (\<exists>res st1. request e config path options st = Some (res, st1)
             \<and> filter is_Fetch (trace st1)
                 = filter is_Fetch (trace st)
                   @ replicate (Suc n) (Fetch (baseUrl config @ path) (fetchInit config options))))"
proof (intro conjI impI)
  assume "\<forall>i<n. \<exists>r. respond e (length (filter is_Fetch (trace st)) + i) (baseUrl config @ path)
                   (fetchInit config options) = Resolved r
               \<and> status r = 429 \<and> header_get r ''retry-after'' = Some ''5''"
  then show "\<exists>st' ws. request e config path options st = request e config path options st'
             \<and> length ws = n \<and> (\<forall>w \<in> set ws. filter is_Fetch w = [])
             \<and> trace st' = trace st @ concat (map (\<lambda>w. w @ [Fetch (baseUrl config @ path)
                   (fetchInit config options), Delay (Num 5000)]) ws)"
    by (rule retries_429)
next
  assume "request e config path options st = Some (Inl (SentryApiError m s b), st'')"
  from request_never_429 [OF this] show "s \<noteq> 429" by blast
next
  assume all: "\<forall>k. \<exists>r. respond e k (baseUrl config @ path) (fetchInit config options) = Resolved r
              \<and> status r = 429"
  show "request e config path options st = None"
  proof (cases "request e config path options st")
    case None
    then show ?thesis .
  next
    case (Some y)
    from request_settles_not_all_429 [OF Some] all show ?thesis by blast
  qed
next
  assume "(\<forall>i<n. \<exists>r. respond e (length (filter is_Fetch (trace st)) + i) (baseUrl config @ path)
                   (fetchInit config options) = Resolved r
               \<and> status r = 429 \<and> header_get r ''retry-after'' = Some ''5'')
        \<and> respond e (length (filter is_Fetch (trace st)) + n) (baseUrl config @ path)
              (fetchInit config options) = out
        \<and> (\<forall>r. out = Resolved r \<longrightarrow> status r \<noteq> 429)"
  then show "\<exists>res st1. request e config path options st = Some (res, st1)
             \<and> filter is_Fetch (trace st1)
                 = filter is_Fetch (trace st)
                   @ replicate (Suc n) (Fetch (baseUrl config @ path) (fetchInit config options))"
    using retries_429_settle [of n e st config path options out] by blast
qed

theorem request_retries_429_witness:
  "(\<exists>st' ws. request busyTwiceEnv demoConfig ''/organizations/acme/'' noInit newClient
               = request busyTwiceEnv demoConfig ''/organizations/acme/'' noInit st'
        \<and> length ws = 2 \<and> (\<forall>w \<in> set ws. filter is_Fetch w = [])
        \<and> trace st' = trace newClient
            @ concat (map (\<lambda>w. w @ [Fetch (baseUrl demoConfig @ ''/organizations/acme/'')
                   (fetchInit demoConfig noInit), Delay (Num 5000)]) ws))
   \<and> request busyTwiceEnv demoConfig ''/organizations/acme/'' noInit newClient
       = Some (Inr \<lparr>data = (), pagination = noLinks\<rparr>,
               \<lparr>rateLimit = initialRateLimit,
                trace = [Fetch ''https://sentry.io/api/0/organizations/acme/'' (fetchInit demoConfig noInit),
                         Delay (Num 5000),
                         Fetch ''https://sentry.io/api/0/organizations/acme/'' (fetchInit demoConfig noInit),
                         Delay (Num 5000),
                         Fetch ''https://sentry.io/api/0/organizations/acme/'' (fetchInit demoConfig noInit)]\<rparr>)
   \<and> request alwaysBusyEnv demoConfig ''/organizations/acme/'' noInit newClient = None
   \<and> (\<exists>res st1. request busyTwiceEnv demoConfig ''/organizations/acme/'' noInit newClient
               = Some (res, st1)
        \<and> filter is_Fetch (trace st1)
            = filter is_Fetch (trace newClient)
              @ replicate (Suc 2) (Fetch (baseUrl demoConfig @ ''/organizations/acme/'')
                  (fetchInit demoConfig noInit)))"
proof -
  let ?p = "''/organizations/acme/''"
  have h2: "\<forall>i<2. \<exists>r. respond busyTwiceEnv (length (filter is_Fetch (trace newClient)) + i)
                (baseUrl demoConfig @ ?p) (fetchInit demoConfig noInit) = Resolved r
               \<and> status r = 429 \<and> header_get r ''retry-after'' = Some ''5''"
  proof (intro allI impI)
    fix i :: nat assume "i < 2"
    then have "i = 0 \<or> i = 1" by arith
    then show "\<exists>r. respond busyTwiceEnv (length (filter is_Fetch (trace newClient)) + i)
                (baseUrl demoConfig @ ?p) (fetchInit demoConfig noInit) = Resolved r
               \<and> status r = 429 \<and> header_get r ''retry-after'' = Some ''5''"
      by (auto simp: busyTwiceEnv_def scripted_def newClient_def busyReply_def reply_def header_get_def)
  qed
  have hall: "\<forall>k. \<exists>r. respond alwaysBusyEnv k (baseUrl demoConfig @ ?p) (fetchInit demoConfig noInit)
                = Resolved r \<and> status r = 429"
    by (simp add: alwaysBusyEnv_def busyReply_def reply_def)
  have a: "\<exists>st' ws. request busyTwiceEnv demoConfig ?p noInit newClient
               = request busyTwiceEnv demoConfig ?p noInit st'
        \<and> length ws = 2 \<and> (\<forall>w \<in> set ws. filter is_Fetch w = [])
        \<and> trace st' = trace newClient
            @ concat (map (\<lambda>w. w @ [Fetch (baseUrl demoConfig @ ?p)
                   (fetchInit demoConfig noInit), Delay (Num 5000)]) ws)"
    using request_retries_429 [where e = busyTwiceEnv and n = 2 and st = newClient
        and config = demoConfig and path = ?p and options = noInit, THEN conjunct1] h2
    by blast
  have b: "request busyTwiceEnv demoConfig ?p noInit newClient
       = Some (Inr \<lparr>data = (), pagination = noLinks\<rparr>,
               \<lparr>rateLimit = initialRateLimit,
                trace = [Fetch ''https://sentry.io/api/0/organizations/acme/'' (fetchInit demoConfig noInit),
                         Delay (Num 5000),
                         Fetch ''https://sentry.io/api/0/organizations/acme/'' (fetchInit demoConfig noInit),
                         Delay (Num 5000),
                         Fetch ''https://sentry.io/api/0/organizations/acme/'' (fetchInit demoConfig noInit)]\<rparr>)"
    by code_simp
  have c: "request alwaysBusyEnv demoConfig ?p noInit newClient = None"
    using request_retries_429 [where e = alwaysBusyEnv and st = newClient
        and config = demoConfig and path = ?p and options = noInit, THEN conjunct2, THEN conjunct2] hall
    by blast
  have h3: "respond busyTwiceEnv (length (filter is_Fetch (trace newClient)) + 2)
        (baseUrl demoConfig @ ?p) (fetchInit demoConfig noInit)
        = Resolved (reply 200 [] ''{}'' (Some ()))
      \<and> (\<forall>r. Resolved (reply 200 [] ''{}'' (Some ())) = (Resolved r :: unit outcome)
            \<longrightarrow> status r \<noteq> 429)"
    by (auto simp: busyTwiceEnv_def scripted_def newClient_def reply_def)
  have d: "\<exists>res st1. request busyTwiceEnv demoConfig ?p noInit newClient = Some (res, st1)
        \<and> filter is_Fetch (trace st1)
            = filter is_Fetch (trace newClient)
              @ replicate (Suc 2) (Fetch (baseUrl demoConfig @ ?p) (fetchInit demoConfig noInit))"
    using request_retries_429 [where e = busyTwiceEnv and n = 2 and st = newClient
        and config = demoConfig and path = ?p and options = noInit
        and out = "Resolved (reply 200 [] ''{}'' (Some ()))",
        THEN conjunct2, THEN conjunct2, THEN conjunct2] h2 h3
    by blast
  from a b c d show ?thesis by blast
qed

text \<open>
  Claim C3 asks for a wait of 60 seconds when the \<^verbatim>\<open>retry-after\<close> header of a 429 cannot
  be read as an integer. The code does not do that: the default \<^verbatim>\<open>'60'\<close> replaces only an
  absent or empty header. For an HTTP date \<^verbatim>\<open>parseInt\<close> gives \<^verbatim>\<open>NaN\<close>, the executor calls
  \<^verbatim>\<open>delay(NaN)\<close> and re-issues the request.
\<close>

theorem request_retry_after_date:
  "parseInt ''Wed, 21 Oct 2015 07:28:00 GMT'' = NaN
   \<and> request dateRetryEnv demoConfig ''/organizations/acme/'' noInit newClient
       = Some (Inr \<lparr>data = (), pagination = noLinks\<rparr>,
               \<lparr>rateLimit = initialRateLimit,
                trace = [Fetch ''https://sentry.io/api/0/organizations/acme/'' (fetchInit demoConfig noInit),
                         Delay NaN,
                         Fetch ''https://sentry.io/api/0/organizations/acme/'' (fetchInit demoConfig noInit)]\<rparr>)"
  by code_simp

text \<open>
  Claim C10. \<^verbatim>\<open>testConnection\<close> returns true when its \<open>request\<close> returns, returns false
  when its \<open>request\<close> throws (whatever the error), never throws itself, and settles
  exactly when its \<open>request\<close> settles. In each case it leaves the client in the state in
  which \<open>request\<close> left it.
\<close>

theorem testConnection_never_throws:
  "(request e config (''/organizations/'' @ org config @ ''/'') noInit st = Some (Inr r, st')
      \<longrightarrow> testConnection e config st = Some (Inr True, st'))
   \<and> (request e config (''/organizations/'' @ org config @ ''/'') noInit st = Some (Inl err, st')
      \<longrightarrow> testConnection e config st = Some (Inr False, st'))
   \<and> testConnection e config st \<noteq> Some (Inl err', st'')
   \<and> (testConnection e config st = None
      \<longleftrightarrow> request e config (''/organizations/'' @ org config @ ''/'') noInit st = None)"
proof (cases "request e config (''/organizations/'' @ org config @ ''/'') noInit st")
  case None
  then show ?thesis by (simp add: testConnection_def)
next
  case (Some y)
  obtain res s where y: "y = (res, s)" by (cases y)
  show ?thesis
  proof (cases res)
    case (Inl x)
    with Some y show ?thesis by (simp add: testConnection_def)
  next
    case (Inr x)
    with Some y show ?thesis by (simp add: testConnection_def)
  qed
qed

theorem testConnection_never_throws_witness:
  "testConnection busyTwiceEnv demoConfig newClient
     = Some (Inr True,
             \<lparr>rateLimit = initialRateLimit,
              trace = [Fetch ''https://sentry.io/api/0/organizations/acme/'' (fetchInit demoConfig noInit),
                       Delay (Num 5000),
                       Fetch ''https://sentry.io/api/0/organizations/acme/'' (fetchInit demoConfig noInit),
                       Delay (Num 5000),
                       Fetch ''https://sentry.io/api/0/organizations/acme/'' (fetchInit demoConfig noInit)]\<rparr>)
   \<and> testConnection serverErrorEnv demoConfig newClient
     = Some (Inr False,
             \<lparr>rateLimit = initialRateLimit,
              trace = [Fetch ''https://sentry.io/api/0/organizations/acme/'' (fetchInit demoConfig noInit)]\<rparr>)
   \<and> testConnection unreachableEnv demoConfig newClient
     = Some (Inr False,
             \<lparr>rateLimit = initialRateLimit,
              trace = [Fetch ''https://sentry.io/api/0/organizations/acme/'' (fetchInit demoConfig noInit)]\<rparr>)
   \<and> testConnection badJsonEnv demoConfig newClient
     = Some (Inr False,
             \<lparr>rateLimit = initialRateLimit,
              trace = [Fetch ''https://sentry.io/api/0/organizations/acme/'' (fetchInit demoConfig noInit)]\<rparr>)"
proof -
  let ?f = "Fetch ''https://sentry.io/api/0/organizations/acme/'' (fetchInit demoConfig noInit)"
  have p: "''/organizations/'' @ org demoConfig @ ''/'' = ''/organizations/acme/''"
    by (simp add: demoConfig_def)
  have r1: "request busyTwiceEnv demoConfig ''/organizations/acme/'' noInit newClient
     = Some (Inr \<lparr>data = (), pagination = noLinks\<rparr>,
             \<lparr>rateLimit = initialRateLimit, trace = [?f, Delay (Num 5000), ?f, Delay (Num 5000), ?f]\<rparr>)"
    by code_simp
  have r2: "request serverErrorEnv demoConfig ''/organizations/acme/'' noInit newClient
     = Some (Inl (SentryApiError ''Sentry API error: 500 '' 500 ''oops''),
             \<lparr>rateLimit = initialRateLimit, trace = [?f]\<rparr>)"
    by code_simp
  have r3: "request unreachableEnv demoConfig ''/organizations/acme/'' noInit newClient
     = Some (Inl (FetchRejected ''ECONNREFUSED''), \<lparr>rateLimit = initialRateLimit, trace = [?f]\<rparr>)"
    by code_simp
  have r4: "request badJsonEnv demoConfig ''/organizations/acme/'' noInit newClient
     = Some (Inl JsonRejected, \<lparr>rateLimit = initialRateLimit, trace = [?f]\<rparr>)"
    by code_simp
  show ?thesis
    using testConnection_never_throws [where e = busyTwiceEnv and config = demoConfig
        and st = newClient, THEN conjunct1] r1
      testConnection_never_throws [where e = serverErrorEnv and config = demoConfig
        and st = newClient, THEN conjunct2, THEN conjunct1] r2
      testConnection_never_throws [where e = unreachableEnv and config = demoConfig
        and st = newClient, THEN conjunct2, THEN conjunct1] r3
      testConnection_never_throws [where e = badJsonEnv and config = demoConfig
        and st = newClient, THEN conjunct2, THEN conjunct1] r4
    unfolding p by blast
qed

lemma ok_not_429: "ok r \<Longrightarrow> status r \<noteq> 429"
  by (simp add: ok_def)

lemma request_page:
  assumes "respond e (length (filter is_Fetch (trace st))) (baseUrl config @ path)
             (fetchInit config options) = Resolved r"
    and "ok r" and "body_json r = Some d"
  shows "request e config path options st
           = Some (Inr \<lparr>data = d, pagination = parseLinkHeader (header_get r ''link'')\<rparr>,
                   afterResponse e config path options r st)"
  using request_resolved [OF assms(1)] assms(2,3) ok_not_429 [OF assms(2)] by simp

text \<open>
  Claim C1. With a limit of 3, a first page of two records whose link header has a next
  cursor with results, and a second page of two records, \<^verbatim>\<open>getIssues\<close> returns exactly the
  first three records of the two pages in server order and has fetched exactly twice, the
  second time with the cursor of the first page; whatever the second page says about a
  third one, it is not fetched. In general, for a non-negative bound, what \<^verbatim>\<open>getIssues\<close>
  returns is a prefix of at most that many records.
\<close>

theorem getIssues_truncates:
  "(opt_limit options = Some (Num 3)
     \<and> respond e (length (filter is_Fetch (trace st)))
          (baseUrl config @ pagePath e config options (issueParams options) None)
          (fetchInit config noInit) = Resolved r1
     \<and> ok r1 \<and> body_json r1 = Some p1 \<and> length p1 = 2
     \<and> nextCursor (parseLinkHeader (header_get r1 ''link'')) = Some c1
     \<and> respond e (Suc (length (filter is_Fetch (trace st))))
          (baseUrl config @ pagePath e config options (issueParams options) (Some c1))
          (fetchInit config noInit) = Resolved r2
     \<and> ok r2 \<and> body_json r2 = Some p2 \<and> length p2 = 2
    \<longrightarrow> (\<exists>st'. getIssues e config options st = Some (Inr (take 3 (p1 @ p2)), st')
          \<and> length (take 3 (p1 @ p2)) = 3
          \<and> filter is_Fetch (trace st')
            = filter is_Fetch (trace st)
              @ [Fetch (baseUrl config @ pagePath e config options (issueParams options) None)
                   (fetchInit config noInit),
                 Fetch (baseUrl config @ pagePath e config options (issueParams options) (Some c1))
                   (fetchInit config noInit)]))
   \<and> (getIssues e' config' options' st0 = Some (Inr xs, st1) \<and> 0 \<le> maxResultsOf options'
        \<longrightarrow> length xs \<le> nat (maxResultsOf options')
          \<and> (\<exists>acc. xs = take (nat (maxResultsOf options')) acc))"
proof (intro conjI impI)
  assume h: "opt_limit options = Some (Num 3)
     \<and> respond e (length (filter is_Fetch (trace st)))
          (baseUrl config @ pagePath e config options (issueParams options) None)
          (fetchInit config noInit) = Resolved r1
     \<and> ok r1 \<and> body_json r1 = Some p1 \<and> length p1 = 2
     \<and> nextCursor (parseLinkHeader (header_get r1 ''link'')) = Some c1
     \<and> respond e (Suc (length (filter is_Fetch (trace st))))
          (baseUrl config @ pagePath e config options (issueParams options) (Some c1))
          (fetchInit config noInit) = Resolved r2
     \<and> ok r2 \<and> body_json r2 = Some p2 \<and> length p2 = 2"
  let ?path1 = "pagePath e config options (issueParams options) None"
  let ?path2 = "pagePath e config options (issueParams options) (Some c1)"
  let ?st1 = "afterResponse e config ?path1 noInit r1 st"
  let ?st2 = "afterResponse e config ?path2 noInit r2 ?st1"
  from h have m: "maxResultsOf options = 3" by (simp add: maxResultsOf_def)
  from h have rq1: "request e config ?path1 noInit st
      = Some (Inr \<lparr>data = p1, pagination = parseLinkHeader (header_get r1 ''link'')\<rparr>, ?st1)"
    by (intro request_page) simp_all
  from h have tr: "truthy (nextCursor (parseLinkHeader (header_get r1 ''link'')))"
    using nextCursor_truthy by blast
  have step1: "getIssues_loop e config options [] None st
      = getIssues_loop e config options p1 (Some c1) ?st1"
    using loop_continue [OF rq1, of "[]"] h m tr by simp
  have cnt: "length (filter is_Fetch (trace ?st1)) = Suc (length (filter is_Fetch (trace st)))"
    by (simp add: afterResponse_fetches)
  from h have rq2: "request e config ?path2 noInit ?st1
      = Some (Inr \<lparr>data = p2, pagination = parseLinkHeader (header_get r2 ''link'')\<rparr>, ?st2)"
    by (intro request_page) (simp_all add: cnt)
  have step2: "getIssues_loop e config options p1 (Some c1) ?st1
      = Some (Inr (slice0 (p1 @ p2) 3), ?st2)"
    using loop_last [OF rq2, of p1] h m by simp
  have res: "getIssues e config options st = Some (Inr (take 3 (p1 @ p2)), ?st2)"
    using step1 step2 by (simp add: getIssues_def slice0_def)
  have len: "length (take 3 (p1 @ p2)) = 3"
    using h by simp
  have fs: "filter is_Fetch (trace ?st2)
      = filter is_Fetch (trace st)
        @ [Fetch (baseUrl config @ ?path1) (fetchInit config noInit),
           Fetch (baseUrl config @ ?path2) (fetchInit config noInit)]"
    by (simp add: afterResponse_fetches)
  from res len fs
  show "\<exists>st'. getIssues e config options st = Some (Inr (take 3 (p1 @ p2)), st')
          \<and> length (take 3 (p1 @ p2)) = 3
          \<and> filter is_Fetch (trace st')
            = filter is_Fetch (trace st)
              @ [Fetch (baseUrl config @ ?path1) (fetchInit config noInit),
                 Fetch (baseUrl config @ ?path2) (fetchInit config noInit)]"
    by blast
next
  assume g: "getIssues e' config' options' st0 = Some (Inr xs, st1) \<and> 0 \<le> maxResultsOf options'"
  then show "length xs \<le> nat (maxResultsOf options')"
    using getIssues_bounded by blast
  from g loop_result [of e' config' options' "[]" None st0 "(Inr xs, st1)"]
  obtain acc where "xs = slice0 ([] @ acc) (maxResultsOf options')"
    by (auto simp: getIssues_def)
  with g show "\<exists>acc. xs = take (nat (maxResultsOf options')) acc"
    by (auto simp: slice0_def)
qed

lemma threePages_cursor:
  "nextCursor (parseLinkHeader (header_get (reply 200 (linkNext ''true'' ''c1'') [] (Some [1, 2 :: nat])) ''link''))
     = Some ''c1''"
  by code_simp

lemma threePages_paths:
  "pagePath threePagesEnv demoConfig (demoOptions (Some (Num 3))) (issueParams (demoOptions (Some (Num 3)))) None
     = ''/organizations/acme/issues/?query=crash&limit=3''"
  "pagePath threePagesEnv demoConfig (demoOptions (Some (Num 3))) (issueParams (demoOptions (Some (Num 3)))) (Some ''c1'')
     = ''/organizations/acme/issues/?query=crash&limit=3&cursor=c1''"
  by code_simp+

theorem getIssues_truncates_witness:
  "(\<exists>st'. getIssues threePagesEnv demoConfig (demoOptions (Some (Num 3))) newClient
            = Some (Inr [1, 2, 3], st')
        \<and> filter is_Fetch (trace st')
          = [Fetch ''https://sentry.io/api/0/organizations/acme/issues/?query=crash&limit=3''
               (fetchInit demoConfig noInit),
             Fetch ''https://sentry.io/api/0/organizations/acme/issues/?query=crash&limit=3&cursor=c1''
               (fetchInit demoConfig noInit)])
   \<and> length [1, 2, 3 :: nat] \<le> nat (maxResultsOf (demoOptions (Some (Num 3))))"
proof -
  let ?o = "demoOptions (Some (Num 3))"
  let ?r1 = "reply 200 (linkNext ''true'' ''c1'') [] (Some [1, 2 :: nat])"
  let ?r2 = "reply 200 (linkNext ''true'' ''c2'') [] (Some [3, 4 :: nat])"
  have h: "opt_limit ?o = Some (Num 3)
     \<and> respond threePagesEnv (length (filter is_Fetch (trace newClient)))
          (baseUrl demoConfig @ pagePath threePagesEnv demoConfig ?o (issueParams ?o) None)
          (fetchInit demoConfig noInit) = Resolved ?r1
     \<and> ok ?r1 \<and> body_json ?r1 = Some [1, 2] \<and> length [1, 2 :: nat] = 2
     \<and> nextCursor (parseLinkHeader (header_get ?r1 ''link'')) = Some ''c1''
     \<and> respond threePagesEnv (Suc (length (filter is_Fetch (trace newClient))))
          (baseUrl demoConfig @ pagePath threePagesEnv demoConfig ?o (issueParams ?o) (Some ''c1''))
          (fetchInit demoConfig noInit) = Resolved ?r2
     \<and> ok ?r2 \<and> body_json ?r2 = Some [3, 4] \<and> length [3, 4 :: nat] = 2"
    using threePages_cursor
    by (simp add: demoOptions_def threePagesEnv_def scripted_def newClient_def ok_def reply_def)
  have m: "maxResultsOf ?o = 3"
    by (simp add: maxResultsOf_def demoOptions_def)
  from getIssues_truncates [where options = ?o and e = threePagesEnv and st = newClient
      and config = demoConfig and ?r1.0 = ?r1 and ?p1.0 = "[1, 2]" and ?c1.0 = "''c1''"
      and ?r2.0 = ?r2 and ?p2.0 = "[3, 4]", THEN conjunct1] h
  obtain st' where g: "getIssues threePagesEnv demoConfig ?o newClient
            = Some (Inr (take 3 ([1, 2] @ [3, 4])), st')"
    and f: "filter is_Fetch (trace st')
          = filter is_Fetch (trace newClient)
              @ [Fetch (baseUrl demoConfig @ pagePath threePagesEnv demoConfig ?o (issueParams ?o) None)
                   (fetchInit demoConfig noInit),
                 Fetch (baseUrl demoConfig @ pagePath threePagesEnv demoConfig ?o (issueParams ?o) (Some ''c1''))
                   (fetchInit demoConfig noInit)]"
    by blast
  from g have g': "getIssues threePagesEnv demoConfig ?o newClient = Some (Inr [1, 2, 3], st')"
    by (simp add: numeral_3_eq_3)
  from f have f': "filter is_Fetch (trace st')
          = [Fetch ''https://sentry.io/api/0/organizations/acme/issues/?query=crash&limit=3''
               (fetchInit demoConfig noInit),
             Fetch ''https://sentry.io/api/0/organizations/acme/issues/?query=crash&limit=3&cursor=c1''
               (fetchInit demoConfig noInit)]"
    unfolding threePages_paths by (simp add: newClient_def demoConfig_def)
  have b: "length [1, 2, 3 :: nat] \<le> nat (maxResultsOf ?o)"
    using getIssues_truncates [where e' = threePagesEnv and config' = demoConfig and options' = ?o
        and ?st0.0 = newClient and xs = "[1, 2, 3]" and ?st1.0 = st', THEN conjunct2] g' m
    by simp
  from g' f' b show ?thesis by blast
qed

text \<open>
  Claim C6. When the \<open>request\<close> for a page returns and the decoded links have no
  \<^verbatim>\<open>next\<close>, or a \<^verbatim>\<open>next\<close> whose results flag is false, the loop returns at once, in the state
  in which that \<open>request\<close> left the client (so nothing more is fetched), with the
  accumulated issues cut to the bound; when they are not more than the bound, these are all
  the accumulated issues, even if fewer than the bound.
\<close>

theorem getIssues_stops_without_next:
  "(request e config (pagePath e config options (issueParams options) cur) noInit st
        = Some (Inr r, st')
      \<and> (next_link (pagination r) = None
           \<or> (\<exists>l. next_link (pagination r) = Some l \<and> \<not> results l))
    \<longrightarrow> getIssues_loop e config options issues cur st
          = Some (Inr (slice0 (issues @ data r) (maxResultsOf options)), st')
        \<and> (int (length (issues @ data r)) \<le> maxResultsOf options
             \<longrightarrow> getIssues_loop e config options issues cur st = Some (Inr (issues @ data r), st')))
   \<and> (request e config (pagePath e config options (issueParams options) None) noInit st
        = Some (Inr r, st')
      \<and> (next_link (pagination r) = None
           \<or> (\<exists>l. next_link (pagination r) = Some l \<and> \<not> results l))
      \<and> int (length (data r)) \<le> maxResultsOf options
    \<longrightarrow> getIssues e config options st = Some (Inr (data r), st'))"
proof -
  have a: "getIssues_loop e config options issues cur st
          = Some (Inr (slice0 (issues @ data r) (maxResultsOf options)), st')"
    if "request e config (pagePath e config options (issueParams options) cur) noInit st
        = Some (Inr r, st')"
      and "next_link (pagination r) = None
           \<or> (\<exists>l. next_link (pagination r) = Some l \<and> \<not> results l)"
    for issues cur
    using loop_last [OF that(1), of issues] nextCursor_none [OF that(2)] by simp
  have b: "slice0 (issues @ data r) (maxResultsOf options) = issues @ data r"
    if "int (length (issues @ data r)) \<le> maxResultsOf options" for issues
    using that by (rule slice0_short)
  show ?thesis
    using a b [of issues] a [of None "[]"] b [of "[]"] by (auto simp: getIssues_def)
qed

lemma lastPage_path:
  "pagePath lastPageEnv demoConfig (demoOptions (Some (Num 25))) (issueParams (demoOptions (Some (Num 25)))) None
     = ''/organizations/acme/issues/?query=crash&limit=25''"
  by code_simp

lemma lastPage_request:
  "request lastPageEnv demoConfig ''/organizations/acme/issues/?query=crash&limit=25'' noInit newClient
     = Some (Inr \<lparr>data = [1, 2],
                  pagination = \<lparr>next_link = Some \<lparr>cursor = ''c1'', results = False\<rparr>,
                                previous_link = None\<rparr>\<rparr>,
             \<lparr>rateLimit = initialRateLimit,
              trace = [Fetch ''https://sentry.io/api/0/organizations/acme/issues/?query=crash&limit=25''
                         (fetchInit demoConfig noInit)]\<rparr>)"
  by code_simp

theorem getIssues_stops_without_next_witness:
  "getIssues lastPageEnv demoConfig (demoOptions (Some (Num 25))) newClient
     = Some (Inr [1, 2],
             \<lparr>rateLimit = initialRateLimit,
              trace = [Fetch ''https://sentry.io/api/0/organizations/acme/issues/?query=crash&limit=25''
                         (fetchInit demoConfig noInit)]\<rparr>)
   \<and> getIssues_loop lastPageEnv demoConfig (demoOptions (Some (Num 25))) [7, 8] None newClient
     = Some (Inr [7, 8, 1, 2],
             \<lparr>rateLimit = initialRateLimit,
              trace = [Fetch ''https://sentry.io/api/0/organizations/acme/issues/?query=crash&limit=25''
                         (fetchInit demoConfig noInit)]\<rparr>)"
proof -
  let ?o = "demoOptions (Some (Num 25))"
  let ?r = "\<lparr>data = [1, 2 :: nat],
                  pagination = \<lparr>next_link = Some \<lparr>cursor = ''c1'', results = False\<rparr>,
                                previous_link = None\<rparr>\<rparr>"
  let ?s = "\<lparr>rateLimit = initialRateLimit,
              trace = [Fetch ''https://sentry.io/api/0/organizations/acme/issues/?query=crash&limit=25''
                         (fetchInit demoConfig noInit)]\<rparr>"
  have m: "maxResultsOf ?o = 25"
    by (simp add: maxResultsOf_def demoOptions_def)
  have rq: "request lastPageEnv demoConfig (pagePath lastPageEnv demoConfig ?o (issueParams ?o) None)
      noInit newClient = Some (Inr ?r, ?s)"
    unfolding lastPage_path by (rule lastPage_request)
  have nx: "next_link (pagination ?r) = None
      \<or> (\<exists>l. next_link (pagination ?r) = Some l \<and> \<not> results l)"
    by simp
  have one: "getIssues lastPageEnv demoConfig ?o newClient = Some (Inr [1, 2], ?s)"
    using getIssues_stops_without_next [where e = lastPageEnv and config = demoConfig
        and options = ?o and st = newClient and r = ?r and st' = ?s, THEN conjunct2] rq nx m
    by simp
  have two: "getIssues_loop lastPageEnv demoConfig ?o [7, 8] None newClient
      = Some (Inr [7, 8, 1, 2], ?s)"
    using getIssues_stops_without_next [where e = lastPageEnv and config = demoConfig
        and options = ?o and st = newClient and r = ?r and st' = ?s and cur = None
        and issues = "[7, 8]", THEN conjunct1] rq nx m
    by (simp add: slice0_def)
  from one two show ?thesis by blast
qed

text \<open>
  Claim C9. When the caller leaves the limit out, the bound is 25: \<^verbatim>\<open>getIssues\<close> never
  returns more than 25 issues, and the loop asks for another page only while it holds
  fewer than 25 issues (and the page just read announces a next one). A page that brings
  the accumulated issues to 25 or more ends the loop in the state its request left, so
  nothing more is fetched, with the first 25 of them.
\<close>

theorem getIssues_default_bound:
  "(opt_limit options = None \<longrightarrow> maxResultsOf options = 25)
   \<and> (opt_limit options = None \<and> getIssues e config options st = Some (Inr xs, st')
        \<longrightarrow> length xs \<le> 25)
   \<and> (opt_limit options = None
        \<and> request e config (pagePath e config options (issueParams options) cur) noInit st
            = Some (Inr r, st1)
        \<longrightarrow> getIssues_loop e config options issues cur st
            = (if 25 \<le> length (issues @ data r) \<or> \<not> truthy (nextCursor (pagination r))
               then Some (Inr (take 25 (issues @ data r)), st1)
               else getIssues_loop e config options (issues @ data r)
                      (nextCursor (pagination r)) st1))
   \<and> (opt_limit options = None
        \<and> request e config (pagePath e config options (issueParams options) cur) noInit st
            = Some (Inr r, st1)
        \<and> 25 \<le> length (issues @ data r)
        \<longrightarrow> getIssues_loop e config options issues cur st
            = Some (Inr (take 25 (issues @ data r)), st1))"
proof -
  have m: "maxResultsOf options = 25" if "opt_limit options = None"
    using that by (simp add: maxResultsOf_def)
  have b: "length xs \<le> 25"
    if "opt_limit options = None" "getIssues e config options st = Some (Inr xs, st')"
    using getIssues_bounded [OF that(2)] m [OF that(1)] by simp
  have c: "getIssues_loop e config options issues cur st
            = (if 25 \<le> length (issues @ data r) \<or> \<not> truthy (nextCursor (pagination r))
               then Some (Inr (take 25 (issues @ data r)), st1)
               else getIssues_loop e config options (issues @ data r)
                      (nextCursor (pagination r)) st1)"
    if u: "opt_limit options = None"
      and rq: "request e config (pagePath e config options (issueParams options) cur) noInit st
            = Some (Inr r, st1)"
  proof (cases "25 \<le> length (issues @ data r) \<or> \<not> truthy (nextCursor (pagination r))")
    case True
    then have "maxResultsOf options \<le> int (length (issues @ data r))
           \<or> \<not> truthy (nextCursor (pagination r))"
      using m [OF u] by auto
    from loop_last [OF rq this] True m [OF u] show ?thesis
      by (simp add: slice0_def)
  next
    case False
    then have "int (length (issues @ data r)) < maxResultsOf options"
      and "truthy (nextCursor (pagination r))"
      using m [OF u] by auto
    from loop_continue [OF rq this] False show ?thesis by simp
  qed
  show ?thesis
  proof (intro conjI impI)
    assume "opt_limit options = None"
    then show "maxResultsOf options = 25" by (rule m)
  next
    assume "opt_limit options = None \<and> getIssues e config options st = Some (Inr xs, st')"
    then show "length xs \<le> 25" using b by blast
  next
    assume "opt_limit options = None
        \<and> request e config (pagePath e config options (issueParams options) cur) noInit st
            = Some (Inr r, st1)"
    then show "getIssues_loop e config options issues cur st
            = (if 25 \<le> length (issues @ data r) \<or> \<not> truthy (nextCursor (pagination r))
               then Some (Inr (take 25 (issues @ data r)), st1)
               else getIssues_loop e config options (issues @ data r)
                      (nextCursor (pagination r)) st1)"
      using c by blast
  next
    assume h: "opt_limit options = None
        \<and> request e config (pagePath e config options (issueParams options) cur) noInit st
            = Some (Inr r, st1)
        \<and> 25 \<le> length (issues @ data r)"
    then have "getIssues_loop e config options issues cur st
            = (if 25 \<le> length (issues @ data r) \<or> \<not> truthy (nextCursor (pagination r))
               then Some (Inr (take 25 (issues @ data r)), st1)
               else getIssues_loop e config options (issues @ data r)
                      (nextCursor (pagination r)) st1)"
      using c by blast
    with h show "getIssues_loop e config options issues cur st
            = Some (Inr (take 25 (issues @ data r)), st1)"
      by (simp only: if_True simp_thms)
  qed
qed

lemma bigPage_request:
  "request bigPageEnv demoConfig ''/organizations/acme/issues/?query=crash'' noInit newClient
     = Some (Inr \<lparr>data = [0..<30],
                  pagination = \<lparr>next_link = Some \<lparr>cursor = ''c1'', results = True\<rparr>,
                                previous_link = None\<rparr>\<rparr>,
             \<lparr>rateLimit = initialRateLimit,
              trace = [Fetch ''https://sentry.io/api/0/organizations/acme/issues/?query=crash''
                         (fetchInit demoConfig noInit)]\<rparr>)"
  by code_simp

lemma bigPage_path:
  "pagePath bigPageEnv demoConfig (demoOptions None) (issueParams (demoOptions None)) None
     = ''/organizations/acme/issues/?query=crash''"
  by code_simp

lemma sixPages_run:
  "map_option (\<lambda>(res, st). (res, fetchCount st))
     (getIssues sixPagesEnv demoConfig (demoOptions None) newClient)
     = Some (Inr (concat (map (replicate 5) [0..<5])), 5)"
  by code_simp

lemma bigPage_run:
  "getIssues bigPageEnv demoConfig (demoOptions None) newClient
     = Some (Inr [0..<25],
             \<lparr>rateLimit = initialRateLimit,
              trace = [Fetch ''https://sentry.io/api/0/organizations/acme/issues/?query=crash''
                         (fetchInit demoConfig noInit)]\<rparr>)"
  by code_simp

theorem getIssues_default_bound_witness:
  "opt_limit (demoOptions None) = None
   \<and> maxResultsOf (demoOptions None) = 25
   \<and> getIssues bigPageEnv demoConfig (demoOptions None) newClient
     = Some (Inr [0..<25],
             \<lparr>rateLimit = initialRateLimit,
              trace = [Fetch ''https://sentry.io/api/0/organizations/acme/issues/?query=crash''
                         (fetchInit demoConfig noInit)]\<rparr>)
   \<and> length [0..<25] \<le> (25 :: nat)
   \<and> getIssues_loop bigPageEnv demoConfig (demoOptions None) [] None newClient
     = Some (Inr (take 25 ([] @ [0..<30])),
             \<lparr>rateLimit = initialRateLimit,
              trace = [Fetch ''https://sentry.io/api/0/organizations/acme/issues/?query=crash''
                         (fetchInit demoConfig noInit)]\<rparr>)
   \<and> map_option (\<lambda>(res, st). (res, fetchCount st))
        (getIssues sixPagesEnv demoConfig (demoOptions None) newClient)
     = Some (Inr (concat (map (replicate 5) [0..<5])), 5)"
proof -
  let ?s = "\<lparr>rateLimit = initialRateLimit,
              trace = [Fetch ''https://sentry.io/api/0/organizations/acme/issues/?query=crash''
                         (fetchInit demoConfig noInit)]\<rparr>"
  let ?r = "\<lparr>data = [0..<30],
                  pagination = \<lparr>next_link = Some \<lparr>cursor = ''c1'', results = True\<rparr>,
                                previous_link = None\<rparr>\<rparr>"
  have u: "opt_limit (demoOptions None) = None"
    by (simp add: demoOptions_def)
  have rq: "request bigPageEnv demoConfig
      (pagePath bigPageEnv demoConfig (demoOptions None) (issueParams (demoOptions None)) None)
      noInit newClient = Some (Inr ?r, ?s)"
    unfolding bigPage_path by (rule bigPage_request)
  have dr: "data ?r = [0..<30]"
    by simp
  have big: "25 \<le> length ([] @ data ?r)"
    unfolding dr by simp
  have stop: "getIssues_loop bigPageEnv demoConfig (demoOptions None) [] None newClient
     = Some (Inr (take 25 ([] @ data ?r)), ?s)"
    using getIssues_default_bound [where options = "demoOptions None" and e = bigPageEnv
        and config = demoConfig and st = newClient and cur = None and r = ?r and ?st1.0 = ?s
        and issues = "[]", THEN conjunct2, THEN conjunct2, THEN conjunct2] u rq big
    by blast
  have stop': "getIssues_loop bigPageEnv demoConfig (demoOptions None) [] None newClient
     = Some (Inr (take 25 ([] @ [0..<30])), ?s)"
    using stop unfolding dr .
  have mx: "maxResultsOf (demoOptions None) = 25"
    using getIssues_default_bound [where options = "demoOptions None", THEN conjunct1] u
    by blast
  have len: "length [0..<25] \<le> (25 :: nat)"
    using getIssues_default_bound [where options = "demoOptions None" and e = bigPageEnv
        and config = demoConfig and st = newClient and xs = "[0..<25]" and st' = ?s,
        THEN conjunct2, THEN conjunct1] u bigPage_run
    by blast
  from u mx bigPage_run len stop' sixPages_run show ?thesis
    by (intro conjI)
qed

end
